theory Spec2Isabelle
  imports Main
begin

section \<open>JavaScript values and string helpers\<close>

text \<open>
  The client modules (\<^verbatim>\<open>connectionUtils\<close>, the Backend Locator, and
  \<^verbatim>\<open>aiTransformer\<close>, the Generation Gateway) are embedded as functions over
  an explicit state. JavaScript values are the JSON values plus \<^verbatim>\<open>undefined\<close>.
  An object is a plain one (created by a literal or by \<^verbatim>\<open>JSON.parse\<close>): the list
  of its own members in enumeration order, with \<^verbatim>\<open>Object.prototype\<close> behind it.
  Numbers are the integers that a double holds exactly and that are printed with all
  their digits (fractions, NaN, infinities and integers from \<open>2^53\<close> on are outside
  the model), strings are strings of 8-bit characters and case mapping is the ASCII
  one; keys that look like array indices are not moved to the front of an object.
\<close>

datatype jsval =
    JUndefined
  | JNull
  | JBool bool
  | JNum int
  | JStr string
  | JArr "jsval list"
  | JObj "(string \<times> jsval) list"

datatype js_error = Error string | TypeError string | SyntaxError string

fun message :: "js_error \<Rightarrow> string" where
  "message (Error m) = m"
| "message (TypeError m) = m"
| "message (SyntaxError m) = m"

text \<open>Truthiness (\<^verbatim>\<open>if (v)\<close>, \<^verbatim>\<open>!v\<close>, \<^verbatim>\<open>a || b\<close>, \<^verbatim>\<open>a && b\<close>).\<close>

fun truthy :: "jsval \<Rightarrow> bool" where
  "truthy JUndefined = False"
| "truthy JNull = False"
| "truthy (JBool b) = b"
| "truthy (JNum n) = (n \<noteq> 0)"
| "truthy (JStr s) = (s \<noteq> [])"
| "truthy (JArr xs) = True"
| "truthy (JObj kvs) = True"

definition js_or :: "jsval \<Rightarrow> jsval \<Rightarrow> jsval" where
  "js_or a b = (if truthy a then a else b)"

definition truthyStr :: "string option \<Rightarrow> bool" where
  "truthyStr v = (case v of None \<Rightarrow> False | Some s \<Rightarrow> s \<noteq> [])"

text \<open>
  Property read \<^verbatim>\<open>v.name\<close> for the names the modules read (\<^verbatim>\<open>success\<close>,
  \<^verbatim>\<open>data\<close>, \<^verbatim>\<open>message\<close>, \<^verbatim>\<open>timestamp\<close>, \<^verbatim>\<open>questTitle\<close>,
  \<^verbatim>\<open>questNarrative\<close>, \<^verbatim>\<open>motivationalMessage\<close>, \<^verbatim>\<open>isAIGenerated\<close>): no
  prototype defines them, so only an object's own members answer; reading from
  \<^verbatim>\<open>null\<close> or \<^verbatim>\<open>undefined\<close> throws a TypeError.
\<close>

fun getProp :: "jsval \<Rightarrow> string \<Rightarrow> js_error + jsval" where
  "getProp JUndefined name = Inl (TypeError (''Cannot read property '' @ name @ '' of undefined''))"
| "getProp JNull name = Inl (TypeError (''Cannot read property '' @ name @ '' of null''))"
| "getProp (JObj kvs) name = Inr (case map_of kvs name of None \<Rightarrow> JUndefined | Some v \<Rightarrow> v)"
| "getProp v name = Inr JUndefined"

fun setField :: "string \<Rightarrow> jsval \<Rightarrow> (string \<times> jsval) list \<Rightarrow> (string \<times> jsval) list" where
  "setField k v [] = [(k, v)]"
| "setField k v ((k', v') # kvs) =
     (if k = k' then (k, v) # kvs else (k', v') # setField k v kvs)"

subsection \<open>Strings\<close>

definition toUpperChar :: "char \<Rightarrow> char" where
  "toUpperChar c =
     (case map_of (zip ''abcdefghijklmnopqrstuvwxyz'' ''ABCDEFGHIJKLMNOPQRSTUVWXYZ'') c of
        Some u \<Rightarrow> u
      | None \<Rightarrow> c)"

definition toLowerChar :: "char \<Rightarrow> char" where
  "toLowerChar c =
     (case map_of (zip ''ABCDEFGHIJKLMNOPQRSTUVWXYZ'' ''abcdefghijklmnopqrstuvwxyz'') c of
        Some l \<Rightarrow> l
      | None \<Rightarrow> c)"

definition toLowerCase :: "string \<Rightarrow> string" where
  "toLowerCase s = map toLowerChar s"

fun startsWith :: "string \<Rightarrow> string \<Rightarrow> bool" where
  "startsWith s [] = True"
| "startsWith [] (k # ks) = False"
| "startsWith (c # cs) (k # ks) = (c = k \<and> startsWith cs ks)"

definition endsWith :: "string \<Rightarrow> string \<Rightarrow> bool" where
  "endsWith s k = startsWith (rev s) (rev k)"

fun includesStr :: "string \<Rightarrow> string \<Rightarrow> bool" where
  "includesStr [] k = (k = [])"
| "includesStr (c # cs) k = (startsWith (c # cs) k \<or> includesStr cs k)"

text \<open>Decimal rendering of numbers, as \<^verbatim>\<open>String(n)\<close> gives it for integers.\<close>

fun digitsOf :: "nat \<Rightarrow> string" where
  "digitsOf n =
     (if n < 10 then [''0123456789'' ! n] else digitsOf (n div 10) @ [''0123456789'' ! (n mod 10)])"

declare digitsOf.simps [simp del]

definition showInt :: "int \<Rightarrow> string" where
  "showInt i = (if i < 0 then CHR ''-'' # digitsOf (nat (- i)) else digitsOf (nat i))"

definition joinWith :: "string \<Rightarrow> string list \<Rightarrow> string" where
  "joinWith sep xs = (case xs of [] \<Rightarrow> [] | y # ys \<Rightarrow> y @ concat (map (\<lambda>z. sep @ z) ys))"

text \<open>
  \<^verbatim>\<open>String(v)\<close>, which is also what a template literal and a property key make
  of \<open>v\<close>. An object is converted by its \<^verbatim>\<open>toString\<close> member: the inherited
  one answers \<^verbatim>\<open>[object Object]\<close>, but an own member of that name is data, not a
  function, so the conversion finds nothing to call (the inherited \<^verbatim>\<open>valueOf\<close>
  returns the object itself and an own one is data too) and throws a TypeError. An
  array joins the texts of its elements, \<^verbatim>\<open>null\<close> and \<^verbatim>\<open>undefined\<close> giving the
  empty text, and throws when an element does.
\<close>

fun toStringJS :: "jsval \<Rightarrow> js_error + string"
  and elementTexts :: "jsval list \<Rightarrow> js_error + string list" where
  "toStringJS JUndefined = Inr ''undefined''"
| "toStringJS JNull = Inr ''null''"
| "toStringJS (JBool b) = Inr (if b then ''true'' else ''false'')"
| "toStringJS (JNum n) = Inr (showInt n)"
| "toStringJS (JStr s) = Inr s"
| "toStringJS (JArr xs) =
     (case elementTexts xs of Inl e \<Rightarrow> Inl e | Inr ts \<Rightarrow> Inr (joinWith '','' ts))"
| "toStringJS (JObj kvs) =
     (if map_of kvs ''toString'' \<noteq> None
      then Inl (TypeError ''Cannot convert object to primitive value'')
      else Inr ''[object Object]'')"
| "elementTexts [] = Inr []"
| "elementTexts (x # xs) =
     (case (if x = JUndefined \<or> x = JNull then Inr [] else toStringJS x) of
        Inl e \<Rightarrow> Inl e
      | Inr t \<Rightarrow> (case elementTexts xs of Inl e \<Rightarrow> Inl e | Inr ts \<Rightarrow> Inr (t # ts)))"

text \<open>
  What a lookup \<^verbatim>\<open>table[key]\<close> in an object literal finds: an own member of the
  literal, or, when the literal has no own member of that name, a member inherited
  from \<^verbatim>\<open>Object.prototype\<close> (a native function, or the prototype object itself
  for \<^verbatim>\<open>__proto__\<close>), or \<^verbatim>\<open>undefined\<close>.
\<close>

datatype member = Own jsval | Inherited string

definition objectPrototypeKeys :: "string list" where
  "objectPrototypeKeys =
     [''constructor'', ''hasOwnProperty'', ''isPrototypeOf'', ''propertyIsEnumerable'',
      ''toLocaleString'', ''toString'', ''valueOf'', ''__proto__'',
      ''__defineGetter__'', ''__defineSetter__'', ''__lookupGetter__'', ''__lookupSetter__'']"

text \<open>The key is converted to a string first, which may throw.\<close>

definition lookupLiteral :: "(string \<times> jsval) list \<Rightarrow> jsval \<Rightarrow> js_error + member" where
  "lookupLiteral kvs key =
     (case toStringJS key of
        Inl e \<Rightarrow> Inl e
      | Inr k \<Rightarrow>
          Inr (case map_of kvs k of
                 Some v \<Rightarrow> Own v
               | None \<Rightarrow> if k \<in> set objectPrototypeKeys then Inherited k else Own JUndefined))"

text \<open>
  Truthiness of what a lookup found, and its text in a template literal (for an
  inherited member the usual engines' rendering of a native function).
\<close>

fun truthyMember :: "member \<Rightarrow> bool" where
  "truthyMember (Own v) = truthy v"
| "truthyMember (Inherited k) = True"

definition nativeText :: "string \<Rightarrow> string" where
  "nativeText k =
     (if k = ''__proto__'' then ''[object Object]''
      else ''function '' @ (if k = ''constructor'' then ''Object'' else k) @ ''() { [native code] }'')"

fun memberText :: "member \<Rightarrow> js_error + string" where
  "memberText (Own v) = toStringJS v"
| "memberText (Inherited k) = Inr (nativeText k)"

subsection \<open>\<^verbatim>\<open>JSON.stringify\<close>\<close>

definition hexDigit :: "nat \<Rightarrow> char" where
  "hexDigit n = ''0123456789abcdef'' ! n"

definition escapeChar :: "char \<Rightarrow> string" where
  "escapeChar c =
     (let n = (of_char c :: nat) in
      if c = CHR 0x22 then [CHR 0x5C, CHR 0x22]
      else if c = CHR 0x5C then [CHR 0x5C, CHR 0x5C]
      else if c = CHR 0x08 then [CHR 0x5C, CHR ''b'']
      else if c = CHR 0x0C then [CHR 0x5C, CHR ''f'']
      else if c = CHR 0x0A then [CHR 0x5C, CHR ''n'']
      else if c = CHR 0x0D then [CHR 0x5C, CHR ''r'']
      else if c = CHR 0x09 then [CHR 0x5C, CHR ''t'']
      else if n < 32 then [CHR 0x5C, CHR ''u'', CHR ''0'', CHR ''0'', hexDigit (n div 16), hexDigit (n mod 16)]
      else [c])"

definition quoteJSON :: "string \<Rightarrow> string" where
  "quoteJSON s = [CHR 0x22] @ concat (map escapeChar s) @ [CHR 0x22]"

text \<open>
  A member whose value is \<^verbatim>\<open>undefined\<close> is left out of an object and written
  \<^verbatim>\<open>null\<close> in an array; at top level \<^verbatim>\<open>JSON.stringify\<close> returns
  \<^verbatim>\<open>undefined\<close> for it, which the template literal of the cache key renders as
  that word. An own member named \<^verbatim>\<open>toJSON\<close> is data, not a function, and is
  written like any other.
\<close>

fun JSON_stringify :: "jsval \<Rightarrow> string" where
  "JSON_stringify JUndefined = ''undefined''"
| "JSON_stringify JNull = ''null''"
| "JSON_stringify (JBool b) = (if b then ''true'' else ''false'')"
| "JSON_stringify (JNum n) = showInt n"
| "JSON_stringify (JStr s) = quoteJSON s"
| "JSON_stringify (JArr xs) =
     ''['' @ joinWith '','' (map (\<lambda>x. if x = JUndefined then ''null'' else JSON_stringify x) xs) @ '']''"
| "JSON_stringify (JObj kvs) =
     ''{'' @ joinWith '',''
        (map (\<lambda>(k, v). quoteJSON k @ '':'' @ JSON_stringify v)
           (filter (\<lambda>(k, v). v \<noteq> JUndefined) kvs)) @ ''}''"

subsection \<open>\<^verbatim>\<open>JSON.parse\<close>\<close>

text \<open>
  \<^verbatim>\<open>JSON.parse\<close> and \<^verbatim>\<open>response.json()\<close> read a text by the JSON grammar.
  \<open>json\<close> is what the grammar describes: the members of an object in the order of
  the text, a key possibly more than once. \<open>ofJson\<close> is the value built from it:
  a key that comes again keeps its place and takes the later value.
\<close>

datatype json =
    JsNull
  | JsBool bool
  | JsNum int
  | JsStr string
  | JsArr "json list"
  | JsObj "(string \<times> json) list"

primrec ofJson :: "json \<Rightarrow> jsval" where
  "ofJson JsNull = JNull"
| "ofJson (JsBool b) = JBool b"
| "ofJson (JsNum n) = JNum n"
| "ofJson (JsStr s) = JStr s"
| "ofJson (JsArr xs) = JArr (map ofJson xs)"
| "ofJson (JsObj kvs) =
     JObj (foldl (\<lambda>acc (k, v). setField k v acc) [] (map (map_prod id ofJson) kvs))"

text \<open>
  The reader, by recursive descent. White space is blank, tab, line feed and
  carriage return. A string ends at the first unescaped quote; a control character
  must be escaped. A number is an optional minus sign and decimal digits without a
  leading zero. Outside the model, and refused here, are a number with a fraction or
  an exponent and an escape \<^verbatim>\<open>\u\<close> above \<^verbatim>\<open>00ff\<close>.
\<close>

definition isWs :: "char \<Rightarrow> bool" where
  "isWs c = (c = CHR '' '' \<or> c = CHR 0x09 \<or> c = CHR 0x0A \<or> c = CHR 0x0D)"

definition skipWs :: "string \<Rightarrow> string" where
  "skipWs s = dropWhile isWs s"

definition digitVal :: "char \<Rightarrow> nat option" where
  "digitVal c = map_of (zip ''0123456789'' [0 ..< 10]) c"

definition hexVal :: "char \<Rightarrow> nat option" where
  "hexVal c = map_of (zip ''0123456789abcdefABCDEF'' ([0 ..< 16] @ [10 ..< 16])) c"

definition isDigit :: "char \<Rightarrow> bool" where
  "isDigit c = (digitVal c \<noteq> None)"

definition digitsVal :: "string \<Rightarrow> nat" where
  "digitsVal ds = foldl (\<lambda>a c. 10 * a + the (digitVal c)) 0 ds"

definition unescape :: "char \<Rightarrow> char option" where
  "unescape e =
     map_of [(CHR 0x22, CHR 0x22), (CHR 0x5C, CHR 0x5C), (CHR ''/'', CHR ''/''),
             (CHR ''b'', CHR 0x08), (CHR ''f'', CHR 0x0C), (CHR ''n'', CHR 0x0A),
             (CHR ''r'', CHR 0x0D), (CHR ''t'', CHR 0x09)] e"

fun parseChars :: "string \<Rightarrow> (string \<times> string) option" where
  "parseChars [] = None"
| "parseChars (c # cs) =
     (if c = CHR 0x22 then Some ([], cs)
      else if c = CHR 0x5C then
        (case cs of
           [] \<Rightarrow> None
         | e # r \<Rightarrow>
             if e = CHR ''u'' then
               (case r of
                  h1 # h2 # h3 # h4 # r' \<Rightarrow>
                    (case (hexVal h1, hexVal h2, hexVal h3, hexVal h4) of
                       (Some a, Some b, Some x, Some y) \<Rightarrow>
                         if a = 0 \<and> b = 0
                         then map_option (\<lambda>(s, t). (char_of (16 * x + y) # s, t)) (parseChars r')
                         else None
                     | _ \<Rightarrow> None)
                | _ \<Rightarrow> None)
             else (case unescape e of
                     None \<Rightarrow> None
                   | Some x \<Rightarrow> map_option (\<lambda>(s, t). (x # s, t)) (parseChars r)))
      else if (of_char c :: nat) < 32 then None
      else map_option (\<lambda>(s, t). (c # s, t)) (parseChars cs))"

definition parseNumber :: "string \<Rightarrow> (int \<times> string) option" where
  "parseNumber s =
     (let neg = (s \<noteq> [] \<and> hd s = CHR ''-'');
          r = (if neg then tl s else s);
          ds = takeWhile isDigit r;
          rest = dropWhile isDigit r
      in if ds = [] then None
         else if hd ds = CHR ''0'' \<and> 1 < length ds then None
         else if rest \<noteq> [] \<and> hd rest \<in> set ''.eE'' then None
         else Some (if neg then - int (digitsVal ds) else int (digitsVal ds), rest))"

fun parseValue :: "nat \<Rightarrow> string \<Rightarrow> (json \<times> string) option"
  and parseElems :: "nat \<Rightarrow> string \<Rightarrow> (json list \<times> string) option"
  and parseMembers :: "nat \<Rightarrow> string \<Rightarrow> ((string \<times> json) list \<times> string) option" where
  "parseValue 0 s = None"
| "parseValue (Suc n) s =
     (case skipWs s of
        [] \<Rightarrow> None
      | c # r \<Rightarrow>
          if c = CHR ''{'' then
            (case skipWs r of
               [] \<Rightarrow> None
             | c2 # r2 \<Rightarrow>
                 if c2 = CHR ''}'' then Some (JsObj [], r2)
                 else map_option (\<lambda>(ms, t). (JsObj ms, t)) (parseMembers n (c2 # r2)))
          else if c = CHR ''['' then
            (case skipWs r of
               [] \<Rightarrow> None
             | c2 # r2 \<Rightarrow>
                 if c2 = CHR '']'' then Some (JsArr [], r2)
                 else map_option (\<lambda>(xs, t). (JsArr xs, t)) (parseElems n (c2 # r2)))
          else if c = CHR 0x22 then map_option (\<lambda>(str, t). (JsStr str, t)) (parseChars r)
          else if startsWith (c # r) ''true'' then Some (JsBool True, drop 4 (c # r))
          else if startsWith (c # r) ''false'' then Some (JsBool False, drop 5 (c # r))
          else if startsWith (c # r) ''null'' then Some (JsNull, drop 4 (c # r))
          else map_option (\<lambda>(i, t). (JsNum i, t)) (parseNumber (c # r)))"
| "parseElems 0 s = None"
| "parseElems (Suc n) s =
     (case parseValue n s of
        None \<Rightarrow> None
      | Some (v, r1) \<Rightarrow>
          (case skipWs r1 of
             [] \<Rightarrow> None
           | c # r2 \<Rightarrow>
               if c = CHR '']'' then Some ([v], r2)
               else if c = CHR '','' then map_option (\<lambda>(xs, t). (v # xs, t)) (parseElems n r2)
               else None))"
| "parseMembers 0 s = None"
| "parseMembers (Suc n) s =
     (case s of
        [] \<Rightarrow> None
      | c # r \<Rightarrow>
          if c \<noteq> CHR 0x22 then None
          else
            (case parseChars r of
               None \<Rightarrow> None
             | Some (k, r1) \<Rightarrow>
                 (case skipWs r1 of
                    [] \<Rightarrow> None
                  | c1 # r2 \<Rightarrow>
                      if c1 \<noteq> CHR '':'' then None
                      else
                        (case parseValue n r2 of
                           None \<Rightarrow> None
                         | Some (v, r3) \<Rightarrow>
                             (case skipWs r3 of
                                [] \<Rightarrow> None
                              | c3 # r4 \<Rightarrow>
                                  if c3 = CHR ''}'' then Some ([(k, v)], r4)
                                  else if c3 = CHR '',''
                                  then map_option (\<lambda>(ms, t). ((k, v) # ms, t))
                                         (parseMembers n (skipWs r4))
                                  else None)))))"

definition parseJson :: "string \<Rightarrow> json option" where
  "parseJson txt =
     (case parseValue (Suc (length txt)) txt of
        None \<Rightarrow> None
      | Some (j, rest) \<Rightarrow> if skipWs rest = [] then Some j else None)"

text \<open>
  \<open>None\<close> is the SyntaxError. The first argument of \<open>parseValue\<close> bounds the depth
  of the recursion; one more than the length of the text is given.
\<close>

definition JSON_parse :: "string \<Rightarrow> jsval option" where
  "JSON_parse txt = map_option ofJson (parseJson txt)"

section \<open>The world outside the modules\<close>

text \<open>
  What the modules read but do not compute is a parameter: the environment variables,
  the device, and one oracle per effect, indexed by the number of effects performed so
  far (\<open>step\<close>), so that two requests to one address may be answered differently.
  \<open>cacheExpiryHours\<close> is \<^verbatim>\<open>Number(process.env.EXPO_PUBLIC_CACHE_EXPIRY_HOURS)\<close>,
  \<open>None\<close> for NaN. \<open>bodyJson\<close> is the body as the platform reads it by the JSON
  grammar (\<open>None\<close> when the body is not JSON) and \<open>stringToNumber\<close> the engine's
  conversion of a string to a number. Of logging only the conversions of arguments
  to text that can throw are modelled.
\<close>

record http_response =
  status :: nat
  bodyText :: string
  bodyJson :: "json option"

definition response_ok :: "http_response \<Rightarrow> bool" where
  "response_ok r = (200 \<le> status r \<and> status r \<le> 299)"

text \<open>\<^verbatim>\<open>response.json()\<close>: the value built from the body; \<open>None\<close> when the promise rejects.\<close>

definition responseJson :: "http_response \<Rightarrow> jsval option" where
  "responseJson r = map_option ofJson (bodyJson r)"

datatype http_outcome = Rejected js_error | Resolved http_response

record http_request =
  reqMethod :: string
  reqUrl :: string
  reqBody :: "string option"

datatype netinfo_outcome = NetInfoRejected js_error | NetInfoState "bool option"

record expo_manifest =
  debuggerHost :: "string option"
  manifestHostUri :: "string option"

record expo_constants =
  expoConfigHostUri :: "string option option"
  manifest :: "expo_manifest option"

record world =
  EXPO_PUBLIC_API_URL :: "string option"
  EXPO_PUBLIC_USE_BACKEND_GENERATION :: "string option"
  EXPO_PUBLIC_ENABLE_API_CACHE :: "string option"
  cacheExpiryHours :: "int option"
  platformOS :: string
  constants :: "expo_constants option"
  net :: "nat \<Rightarrow> http_request \<Rightarrow> http_outcome"
  storageFails :: "nat \<Rightarrow> bool"
  netInfo :: "nat \<Rightarrow> netinfo_outcome"
  clock :: "nat \<Rightarrow> int"
  randomUnit :: "nat \<Rightarrow> nat"
  randomText :: "nat \<Rightarrow> string"
  stringToNumber :: "string \<Rightarrow> int option"

text \<open>
  The mutable part: the persistent key-value store (AsyncStorage), the module
  variable \<^verbatim>\<open>discoveredBackendUrl\<close> of the gateway, the HTTP requests issued so far
  and the effect counter.
\<close>

record state =
  storage :: "string \<Rightarrow> string option"
  discoveredBackendUrl :: "string option"
  httpLog :: "http_request list"
  step :: nat

definition tick :: "state \<Rightarrow> state" where
  "tick s = s\<lparr>step := Suc (step s)\<rparr>"

definition fetch :: "world \<Rightarrow> http_request \<Rightarrow> state \<Rightarrow> http_outcome \<times> state" where
  "fetch W rq s = (net W (step s) rq, tick (s\<lparr>httpLog := httpLog s @ [rq]\<rparr>))"

definition getItem :: "world \<Rightarrow> string \<Rightarrow> state \<Rightarrow> (js_error + string option) \<times> state" where
  "getItem W key s =
     (if storageFails W (step s) then Inl (Error ''AsyncStorage read failed'')
      else Inr (storage s key), tick s)"

definition setItem :: "world \<Rightarrow> string \<Rightarrow> string \<Rightarrow> state \<Rightarrow> (js_error + unit) \<times> state" where
  "setItem W key v s =
     (if storageFails W (step s) then (Inl (Error ''AsyncStorage write failed''), tick s)
      else (Inr (), tick (s\<lparr>storage := (storage s)(key \<mapsto> v)\<rparr>)))"

definition dateNow :: "world \<Rightarrow> state \<Rightarrow> int \<times> state" where
  "dateNow W s = (clock W (step s), tick s)"

definition netInfoFetch :: "world \<Rightarrow> state \<Rightarrow> netinfo_outcome \<times> state" where
  "netInfoFetch W s = (netInfo W (step s), tick s)"

text \<open>
  \<^verbatim>\<open>Math.random()\<close> is the double \<open>randomUnit\<close> over \<open>2^53\<close>, a number in
  \<open>[0, 1)\<close>. Its product with a count is a double again: \<open>roundToDouble\<close> rounds
  the exact product, counted in units of \<open>2^-53\<close>, to 53 significant bits, a tie
  going to the even neighbour. \<open>floorRandomTimes k u\<close> is
  \<^verbatim>\<open>Math.floor(Math.random() * k)\<close> for the draw \<open>u\<close>.
\<close>

fun bitLength :: "nat \<Rightarrow> nat" where
  "bitLength n = (if n = 0 then 0 else Suc (bitLength (n div 2)))"

declare bitLength.simps [simp del]

definition roundToDouble :: "nat \<Rightarrow> nat" where
  "roundToDouble n =
     (if bitLength n \<le> 53 then n
      else (let sh = bitLength n - 53; q = n div 2 ^ sh; r = n mod 2 ^ sh
            in (if 2 ^ sh < 2 * r \<or> (2 * r = 2 ^ sh \<and> odd q) then q + 1 else q) * 2 ^ sh))"

definition floorRandomTimes :: "nat \<Rightarrow> nat \<Rightarrow> nat" where
  "floorRandomTimes k u = roundToDouble ((u mod 2 ^ 53) * k) div 2 ^ 53"

section \<open>connectionUtils: candidates, probe, locator\<close>

text \<open>\<^verbatim>\<open>[...new Set(urls)]\<close>: a set keeps its members in insertion order.\<close>

fun setInsertAll :: "string list \<Rightarrow> string list \<Rightarrow> string list" where
  "setInsertAll seen [] = seen"
| "setInsertAll seen (x # xs) = setInsertAll (if x \<in> set seen then seen else seen @ [x]) xs"

definition newSet :: "string list \<Rightarrow> string list" where
  "newSet xs = setInsertAll [] xs"

text \<open>
  The host the Expo runtime reports. Reading \<^verbatim>\<open>Constants.expoConfig\<close> when
  \<^verbatim>\<open>Constants\<close> is missing throws inside the \<^verbatim>\<open>try\<close>, which leaves
  \<^verbatim>\<open>devServerHost\<close> undefined.
\<close>

definition devServerHost :: "world \<Rightarrow> string option" where
  "devServerHost W =
     (case constants W of
        None \<Rightarrow> None
      | Some C \<Rightarrow>
          (let d = (case expoConfigHostUri C of None \<Rightarrow> None | Some h \<Rightarrow> h) in
           case manifest C of
             Some m \<Rightarrow>
               if \<not> truthyStr d
               then (if truthyStr (debuggerHost m) then debuggerHost m else manifestHostUri m)
               else d
           | None \<Rightarrow> d))"

text \<open>The list before deduplication, in the order of the \<^verbatim>\<open>push\<close> calls.\<close>

definition rawServerUrls :: "world \<Rightarrow> string list" where
  "rawServerUrls W =
     (if truthyStr (EXPO_PUBLIC_API_URL W) then [the (EXPO_PUBLIC_API_URL W)] else [])
     @ [''http://localhost:3000/api'', ''http://127.0.0.1:3000/api'']
     @ (if platformOS W = ''android'' then [''http://10.0.2.2:3000/api''] else [])
     @ (if platformOS W = ''ios'' then [''http://localhost:3000/api''] else [])
     @ (if truthyStr (devServerHost W)
        then (let host = takeWhile (\<lambda>c. c \<noteq> CHR '':'') (the (devServerHost W)) in
              if host \<noteq> [] \<and> host \<noteq> ''localhost'' \<and> host \<noteq> ''127.0.0.1''
              then [''http://'' @ host @ '':3000/api''] else [])
        else [''http://192.168.1.1:3000/api'', ''http://192.168.0.1:3000/api''])"

definition getPossibleServerUrls :: "world \<Rightarrow> string list" where
  "getPossibleServerUrls W = newSet (rawServerUrls W)"

text \<open>
  The probe. \<open>isUrlReachable_try\<close> is the body of the \<^verbatim>\<open>try\<close>: the fetch may
  reject (network error, abort after 3000 ms) and \<^verbatim>\<open>response.json()\<close> rejects on a
  body that is not JSON; the \<^verbatim>\<open>catch\<close> turns both into \<^verbatim>\<open>false\<close>. The result
  type keeps the error alternative so that "does not throw" can be stated.
\<close>

definition healthUrl :: "string \<Rightarrow> string" where
  "healthUrl url = (if endsWith url ''/api'' then url @ ''/health'' else url @ ''/api/health'')"

definition isUrlReachable_try :: "world \<Rightarrow> string \<Rightarrow> state \<Rightarrow> (js_error + bool) \<times> state" where
  "isUrlReachable_try W url s =
     (case fetch W \<lparr>reqMethod = ''GET'', reqUrl = healthUrl url, reqBody = None\<rparr> s of
        (Rejected e, s1) \<Rightarrow> (Inl e, s1)
      | (Resolved r, s1) \<Rightarrow>
          if response_ok r
          then (case responseJson r of
                  None \<Rightarrow> (Inl (SyntaxError ''JSON Parse error''), s1)
                | Some d \<Rightarrow> (Inr True, s1))
          else (Inr False, s1))"

definition isUrlReachable :: "world \<Rightarrow> string \<Rightarrow> state \<Rightarrow> (js_error + bool) \<times> state" where
  "isUrlReachable W url s =
     (case isUrlReachable_try W url s of
        (Inl e, s1) \<Rightarrow> (Inr False, s1)
      | (Inr b, s1) \<Rightarrow> (Inr b, s1))"

text \<open>The loop over the candidates; a failed write of the working URL is only logged.\<close>

fun probeAll :: "world \<Rightarrow> string list \<Rightarrow> state \<Rightarrow> (js_error + string option) \<times> state" where
  "probeAll W [] s = (Inr None, s)"
| "probeAll W (url # urls) s =
     (case isUrlReachable W url s of
        (Inl e, s1) \<Rightarrow> (Inl e, s1)
      | (Inr True, s1) \<Rightarrow> (Inr (Some url), snd (setItem W ''working_backend_url'' url s1))
      | (Inr False, s1) \<Rightarrow> probeAll W urls s1)"

text \<open>
  The part of \<^verbatim>\<open>discoverBackendUrl\<close> after the cached URL has been tried:
  \<^verbatim>\<open>NetInfo.fetch()\<close> is outside any \<^verbatim>\<open>try\<close>, so its rejection is thrown.
\<close>

definition discoverFromNetwork :: "world \<Rightarrow> state \<Rightarrow> (js_error + string option) \<times> state" where
  "discoverFromNetwork W s =
     (case netInfoFetch W s of
        (NetInfoRejected e, s1) \<Rightarrow> (Inl e, s1)
      | (NetInfoState c, s1) \<Rightarrow>
          if c \<noteq> Some True then (Inr None, s1)
          else probeAll W (getPossibleServerUrls W) s1)"

text \<open>
  The first \<^verbatim>\<open>try\<close> of \<^verbatim>\<open>discoverBackendUrl\<close>: \<open>Some url\<close> is the
  \<^verbatim>\<open>return cachedUrl\<close>; \<open>None\<close> means the block was left without returning (no
  cached URL, an unreachable one, or an error, which the \<^verbatim>\<open>catch\<close> only logs).
\<close>

definition tryCachedUrl :: "world \<Rightarrow> state \<Rightarrow> string option \<times> state" where
  "tryCachedUrl W s =
     (case getItem W ''working_backend_url'' s of
        (Inl e, s1) \<Rightarrow> (None, s1)
      | (Inr cachedUrl, s1) \<Rightarrow>
          if truthyStr cachedUrl
          then (case isUrlReachable W (the cachedUrl) s1 of
                  (Inl e, s2) \<Rightarrow> (None, s2)
                | (Inr True, s2) \<Rightarrow> (cachedUrl, s2)
                | (Inr False, s2) \<Rightarrow> (None, s2))
          else (None, s1))"

definition discoverBackendUrl :: "world \<Rightarrow> state \<Rightarrow> (js_error + string option) \<times> state" where
  "discoverBackendUrl W s =
     (case tryCachedUrl W s of
        (Some url, s1) \<Rightarrow> (Inr (Some url), s1)
      | (None, s1) \<Rightarrow> discoverFromNetwork W s1)"

definition buildApiUrl :: "string \<Rightarrow> string \<Rightarrow> string" where
  "buildApiUrl backendUrl endpoint =
     (let normalizedEndpoint = (if startsWith endpoint ''/'' then drop 1 endpoint else endpoint) in
      if endsWith backendUrl ''/api'' then backendUrl @ ''/'' @ normalizedEndpoint
      else if endsWith backendUrl ''/'' then backendUrl @ ''api/'' @ normalizedEndpoint
      else backendUrl @ ''/api/'' @ normalizedEndpoint)"

definition getApiUrl :: "world \<Rightarrow> string \<Rightarrow> string option \<Rightarrow> state \<Rightarrow> (js_error + string option) \<times> state" where
  "getApiUrl W endpoint baseUrl s =
     (case (if truthyStr baseUrl then (Inr baseUrl, s) else discoverBackendUrl W s) of
        (Inl e, s1) \<Rightarrow> (Inl e, s1)
      | (Inr backendUrl, s1) \<Rightarrow>
          if \<not> truthyStr backendUrl then (Inr None, s1)
          else (Inr (Some (buildApiUrl (the backendUrl) endpoint)), s1))"

section \<open>aiTransformer: configuration, cache, remote call\<close>

text \<open>
  The three flags as the module computes them. An environment variable is a string
  or missing, so the comparison \<^verbatim>\<open>=== true\<close> with the boolean never holds; the
  last disjunct is the default the source writes.
\<close>

definition USE_BACKEND_GENERATION :: "world \<Rightarrow> bool" where
  "USE_BACKEND_GENERATION W =
     (EXPO_PUBLIC_USE_BACKEND_GENERATION W = Some ''true'' \<or> False \<or> False)"

definition ENABLE_API_CACHE :: "world \<Rightarrow> bool" where
  "ENABLE_API_CACHE W =
     (EXPO_PUBLIC_ENABLE_API_CACHE W = Some ''true'' \<or> False \<or> True)"

definition CACHE_EXPIRY :: "world \<Rightarrow> int" where
  "CACHE_EXPIRY W =
     (case cacheExpiryHours W of
        None \<Rightarrow> 24
      | Some h \<Rightarrow> if h = 0 then 24 else h) * 60 * 60 * 1000"

text \<open>
  \<^verbatim>\<open>extractResponseData\<close>. The rest pattern
  \<^verbatim>\<open>const { success, message, ...data } = response\<close> copies every other member.
\<close>

definition extractResponseData :: "jsval \<Rightarrow> js_error + jsval" where
  "extractResponseData response =
     (case getProp response ''success'' of
        Inl e \<Rightarrow> Inl e
      | Inr success \<Rightarrow>
          (case getProp response ''data'' of
             Inl e \<Rightarrow> Inl e
           | Inr d \<Rightarrow>
               if success = JBool True \<and> d \<noteq> JUndefined then Inr d
               else if success = JBool True
               then (case response of
                       JObj kvs \<Rightarrow>
                         Inr (JObj (filter (\<lambda>(k, v). k \<noteq> ''success'' \<and> k \<noteq> ''message'') kvs))
                     | _ \<Rightarrow> Inr response)
               else Inr response))"

definition cacheKey :: "string \<Rightarrow> jsval \<Rightarrow> string" where
  "cacheKey endpoint body =
     ''taskflick_cache_'' @ endpoint @ ''_'' @ (if truthy body then JSON_stringify body else [])"

text \<open>
  The number a value stands for in \<^verbatim>\<open>Date.now() - timestamp\<close>; \<open>None\<close> is NaN,
  for which the comparison with the expiry is false. An array or object is
  converted through its text, which throws for the objects described above.
\<close>

fun toNumber :: "world \<Rightarrow> jsval \<Rightarrow> js_error + int option" where
  "toNumber W JUndefined = Inr None"
| "toNumber W JNull = Inr (Some 0)"
| "toNumber W (JBool b) = Inr (Some (if b then 1 else 0))"
| "toNumber W (JNum n) = Inr (Some n)"
| "toNumber W (JStr s) = Inr (stringToNumber W s)"
| "toNumber W v = (case toStringJS v of Inl e \<Rightarrow> Inl e | Inr t \<Rightarrow> Inr (stringToNumber W t))"

text \<open>What \<^verbatim>\<open>callApi\<close> writes under a cache key.\<close>

definition cacheEntry :: "jsval \<Rightarrow> int \<Rightarrow> jsval" where
  "cacheEntry d t = JObj [(''data'', d), (''timestamp'', JNum t)]"

text \<open>
  The inner \<^verbatim>\<open>try\<close> of the cache read: \<open>Inr (Some data)\<close> is the
  \<^verbatim>\<open>return data\<close>, \<open>Inr None\<close> falls out of the block, \<open>Inl\<close> is caught by the
  inner \<^verbatim>\<open>catch\<close>, which only logs.
\<close>

definition cacheRead_try :: "world \<Rightarrow> string \<Rightarrow> state \<Rightarrow> (js_error + jsval option) \<times> state" where
  "cacheRead_try W key s =
     (case getItem W key s of
        (Inl e, s1) \<Rightarrow> (Inl e, s1)
      | (Inr cachedData, s1) \<Rightarrow>
          if truthyStr cachedData
          then (case JSON_parse (the cachedData) of
                  None \<Rightarrow> (Inl (SyntaxError ''JSON Parse error''), s1)
                | Some v \<Rightarrow>
                    (case getProp v ''data'' of
                       Inl e \<Rightarrow> (Inl e, s1)
                     | Inr d \<Rightarrow>
                         (case getProp v ''timestamp'' of
                            Inl e \<Rightarrow> (Inl e, s1)
                          | Inr timestamp \<Rightarrow>
                              (case dateNow W s1 of
                                 (now, s2) \<Rightarrow>
                                   (case toNumber W timestamp of
                                      Inl e \<Rightarrow> (Inl e, s2)
                                    | Inr None \<Rightarrow> (Inr None, s2)
                                    | Inr (Some t) \<Rightarrow>
                                        if now - t < CACHE_EXPIRY W then (Inr (Some d), s2)
                                        else (Inr None, s2))))))
          else (Inr None, s1))"

text \<open>Making sure the module variable holds a backend URL.\<close>

definition ensureBackendUrl :: "world \<Rightarrow> state \<Rightarrow> (js_error + unit) \<times> state" where
  "ensureBackendUrl W s =
     (if \<not> truthyStr (discoveredBackendUrl s)
      then (case discoverBackendUrl W s of
              (Inl e, s1) \<Rightarrow> (Inl e, s1)
            | (Inr u, s1) \<Rightarrow>
                if \<not> truthyStr u
                then (Inl (Error ''Cannot connect to backend server''), s1\<lparr>discoveredBackendUrl := u\<rparr>)
                else (Inr (), s1\<lparr>discoveredBackendUrl := u\<rparr>))
      else (Inr (), s))"

text \<open>
  The cache write after a successful response. Reading \<^verbatim>\<open>result.success\<close> is
  outside the inner \<^verbatim>\<open>try\<close> and throws for a \<^verbatim>\<open>null\<close> body; everything
  inside it (a failed write) is caught and logged.
\<close>

definition cacheWrite :: "world \<Rightarrow> string \<Rightarrow> string \<Rightarrow> jsval \<Rightarrow> state \<Rightarrow> (js_error + unit) \<times> state" where
  "cacheWrite W endpoint key result s =
     (if ENABLE_API_CACHE W \<and> endpoint \<noteq> ''motivational-message''
      then (case getProp result ''success'' of
              Inl e \<Rightarrow> (Inl e, s)
            | Inr success \<Rightarrow>
                if success = JUndefined \<or> success = JBool True
                then (case extractResponseData result of
                        Inl e \<Rightarrow> (Inr (), s)
                      | Inr dataToCache \<Rightarrow>
                          (case dateNow W s of
                             (now, s1) \<Rightarrow>
                               (Inr (), snd (setItem W key (JSON_stringify (cacheEntry dataToCache now)) s1))))
                else (Inr (), s))
      else (Inr (), s))"

text \<open>
  The request \<^verbatim>\<open>callApi\<close> sends: the \<^verbatim>\<open>options\<close> object gets a body only for
  a truthy \<open>body\<close>.
\<close>

definition apiRequest :: "string \<Rightarrow> jsval \<Rightarrow> string \<Rightarrow> http_request" where
  "apiRequest method body fullUrl =
     \<lparr>reqMethod = method, reqUrl = fullUrl,
      reqBody = (if truthy body then Some (JSON_stringify body) else None)\<rparr>"

text \<open>The part of \<^verbatim>\<open>callApi\<close> after the cache read.\<close>

definition callRemote :: "world \<Rightarrow> string \<Rightarrow> string \<Rightarrow> jsval \<Rightarrow> string \<Rightarrow> state \<Rightarrow> (js_error + jsval) \<times> state" where
  "callRemote W endpoint method body key s =
     (case ensureBackendUrl W s of
        (Inl e, s1) \<Rightarrow> (Inl e, s1)
      | (Inr u, s1) \<Rightarrow>
          (case getApiUrl W endpoint (discoveredBackendUrl s1) s1 of
             (Inl e, s2) \<Rightarrow> (Inl e, s2)
           | (Inr fullUrl, s2) \<Rightarrow>
               if \<not> truthyStr fullUrl then (Inl (Error ''Failed to construct API URL''), s2)
               else
                 (case fetch W (apiRequest method body (the fullUrl)) s2 of
                    (Rejected e, s3) \<Rightarrow> (Inl e, s3)
                  | (Resolved response, s3) \<Rightarrow>
                      if \<not> response_ok response
                      then (Inl (Error (''API error: '' @ showInt (int (status response)) @ '' - ''
                                          @ bodyText response)), s3)
                      else
                        (case responseJson response of
                           None \<Rightarrow> (Inl (SyntaxError ''JSON Parse error''), s3)
                         | Some result \<Rightarrow>
                             (case cacheWrite W endpoint key result s3 of
                                (Inl e, s4) \<Rightarrow> (Inl e, s4)
                              | (Inr u', s4) \<Rightarrow> (extractResponseData result, s4))))))"

text \<open>
  \<^verbatim>\<open>callApi\<close>. Its outer \<^verbatim>\<open>catch\<close> logs and throws the error again, so an
  \<open>Inl\<close> passes through unchanged.
\<close>

definition callApi :: "world \<Rightarrow> string \<Rightarrow> string \<Rightarrow> jsval \<Rightarrow> state \<Rightarrow> (js_error + jsval) \<times> state" where
  "callApi W endpoint method body s =
     (if \<not> USE_BACKEND_GENERATION W
      then (Inl (Error ''Backend generation disabled by configuration''), s)
      else
        (let key = cacheKey endpoint body in
         if ENABLE_API_CACHE W \<and> endpoint \<noteq> ''motivational-message''
         then (case cacheRead_try W key s of
                 (Inr (Some d), s1) \<Rightarrow> (Inr d, s1)
               | (Inr None, s1) \<Rightarrow> callRemote W endpoint method body key s1
               | (Inl e, s1) \<Rightarrow> callRemote W endpoint method body key s1)
         else callRemote W endpoint method body key s))"

section \<open>aiTransformer: local fallback generators\<close>

text \<open>
  \<^verbatim>\<open>category.toLowerCase()\<close>: a TypeError when \<open>category\<close> is \<^verbatim>\<open>undefined\<close> or
  \<^verbatim>\<open>null\<close> (no property can be read) or is not a string (the member is not a
  function).
\<close>

fun toLowerCaseJS :: "jsval \<Rightarrow> js_error + string" where
  "toLowerCaseJS (JStr s) = Inr (toLowerCase s)"
| "toLowerCaseJS JUndefined = Inl (TypeError ''Cannot read property toLowerCase of undefined'')"
| "toLowerCaseJS JNull = Inl (TypeError ''Cannot read property toLowerCase of null'')"
| "toLowerCaseJS v = Inl (TypeError ''category.toLowerCase is not a function'')"

fun capitalize :: "jsval \<Rightarrow> string" where
  "capitalize (JStr s) = (case s of [] \<Rightarrow> [] | c # cs \<Rightarrow> toUpperChar c # cs)"
| "capitalize v = []"

definition themeOf :: "string \<Rightarrow> string" where
  "themeOf c =
     (if c = ''work'' then ''Guild''
      else if c = ''education'' \<or> c = ''study'' \<or> c = ''learning'' then ''Arcane''
      else if c = ''fitness'' \<or> c = ''health'' then ''Warrior''
      else if c = ''home'' \<or> c = ''chores'' then ''Village''
      else ''Adventure'')"

definition questTitleTemplates :: "string \<Rightarrow> string \<Rightarrow> string list" where
  "questTitleTemplates theme t =
     [''The '' @ theme @ '' '' @ t,
      theme @ '' Mission: '' @ t,
      theme @ [CHR 0x27] @ ''s Call: '' @ t,
      ''The '' @ theme @ '' Seeker'' @ [CHR 0x27] @ ''s '' @ t,
      t @ '' of the '' @ theme @ '' Realm'']"

text \<open>The first argument is the draw of \<^verbatim>\<open>Math.random()\<close> the function makes.\<close>

definition fallbackGenerateQuestTitle :: "nat \<Rightarrow> jsval \<Rightarrow> jsval \<Rightarrow> js_error + string" where
  "fallbackGenerateQuestTitle u taskTitle category =
     (case toLowerCaseJS category of
        Inl e \<Rightarrow> Inl e
      | Inr c \<Rightarrow>
          (let templates = questTitleTemplates (themeOf c) (capitalize taskTitle);
               randomIndex = floorRandomTimes (length templates) u
           in Inr (templates ! randomIndex)))"

definition categoryNarratives :: "(string \<times> string) list" where
  "categoryNarratives =
     [(''work'', ''The Guild requires your expertise. Complete this task to gain favor with the Guild Masters.''),
      (''education'', ''Ancient knowledge awaits your discovery. Master this arcane challenge to expand your wisdom.''),
      (''learning'', ''Ancient knowledge awaits your discovery. Master this arcane challenge to expand your wisdom.''),
      (''fitness'', ''A warrior'' @ [CHR 0x27] @ ''s strength comes from consistent training. Push through this challenge to enhance your power.''),
      (''health'', ''A warrior'' @ [CHR 0x27] @ ''s strength comes from consistent training. Push through this challenge to enhance your power.''),
      (''home'', ''The village needs your attention. Restore order to this area to improve the prosperity of your domain.''),
      (''chores'', ''The village needs your attention. Restore order to this area to improve the prosperity of your domain.''),
      (''personal'', ''Your personal quest awaits. Success will bring you closer to fulfilling your destiny.'')]"

definition difficultyModifiers :: "(string \<times> jsval) list" where
  "difficultyModifiers =
     [(''mini'', JStr ''This is but a small step in your journey, yet important nonetheless.''),
      (''normal'', JStr ''A worthy challenge that will test your resolve and determination.''),
      (''boss'', JStr ''Beware, adventurer! This formidable task will require all your skill and courage to overcome.'')]"

text \<open>
  \<^verbatim>\<open>Object.keys(categoryNarratives).find(key => category.toLowerCase().includes(key))\<close>:
  the callback runs on the first key at least, so a \<open>category\<close> that is not a string
  throws here too. The lookup \<^verbatim>\<open>difficultyModifiers[difficulty]\<close> converts
  \<open>difficulty\<close> to a key, which may throw, and finds inherited members as well as
  the three own ones. The parameter \<open>taskTitle\<close> is not used by the source.
\<close>

definition fallbackGenerateQuestNarrative :: "jsval \<Rightarrow> jsval \<Rightarrow> jsval \<Rightarrow> js_error + string" where
  "fallbackGenerateQuestNarrative taskTitle category difficulty =
     (case toLowerCaseJS category of
        Inl e \<Rightarrow> Inl e
      | Inr c \<Rightarrow>
          (let baseCategory =
                 (case find (\<lambda>key. includesStr c key) (map fst categoryNarratives) of
                    None \<Rightarrow> ''personal''
                  | Some key \<Rightarrow> key);
               base = (case map_of categoryNarratives baseCategory of
                         None \<Rightarrow> ''undefined'' | Some n \<Rightarrow> n)
           in case lookupLiteral difficultyModifiers difficulty of
                Inl e \<Rightarrow> Inl e
              | Inr found \<Rightarrow>
                  (case (if truthyMember found then Inr found
                         else lookupLiteral difficultyModifiers (JStr ''normal'')) of
                     Inl e \<Rightarrow> Inl e
                   | Inr modifier \<Rightarrow>
                       (case memberText modifier of
                          Inl e \<Rightarrow> Inl e
                        | Inr t \<Rightarrow> Inr (base @ '' '' @ t)))))"

definition motivationalMessages :: "string list" where
  "motivationalMessages =
     [''The path to greatness is paved with completed quests!'',
      ''Even the mightiest heroes began with small victories. Keep going!'',
      ''Your quest log grows more impressive each day. The kingdom notices your deeds!'',
      ''The greatest adventure is the one that transforms you. Onward!'',
      ''A true hero knows that persistence unlocks all achievements.'',
      ''Your journey inspires others around you. Continue your noble path!'',
      ''Each completed quest brings you closer to legendary status.'',
      ''The rewards of consistency are waiting just over the horizon.'',
      ''Your dedication to your quests shapes your destiny.'',
      ''Today'' @ [CHR 0x27] @ ''s small victory is tomorrow'' @ [CHR 0x27] @ ''s epic tale!'']"

definition fallbackGenerateMotivationalMessage :: "nat \<Rightarrow> string" where
  "fallbackGenerateMotivationalMessage u =
     motivationalMessages ! floorRandomTimes (length motivationalMessages) u"

definition badge :: "string \<Rightarrow> string \<Rightarrow> string \<Rightarrow> jsval" where
  "badge n d i = JObj [(''badgeName'', JStr n), (''badgeDescription'', JStr d), (''iconType'', JStr i)]"

definition defaultBadges :: "(string \<times> jsval) list" where
  "defaultBadges =
     [(''First Quest'', badge ''Brave First Step''
          ''You completed your first quest and began your adventure!'' ''boot''),
      (''Quest Novice'', badge ''Quest Seeker''
          ''You completed 5 quests and are developing your adventuring skills.'' ''scroll''),
      (''Quest Adept'', badge ''Quest Champion''
          ''With 10 quests completed, your reputation grows throughout the realm.'' ''shield''),
      (''Quest Master'', badge ''Quest Legend''
          ''After 25 quests, bards sing tales of your legendary accomplishments!'' ''crown''),
      (''Consistent Adventurer'', badge ''Steadfast Journeyer''
          ''You maintained focus for 3 days straight. Your persistence is remarkable!'' ''calendar''),
      (''Weekly Warrior'', badge ''Hero of the Week''
          ''A full week of continuous progress! Few adventurers show such dedication.'' ''star''),
      (''Point Collector'', badge ''XP Gatherer''
          (''You'' @ [CHR 0x27] @ ''ve accumulated 100 XP points through your noble deeds.'') ''gem''),
      (''XP Hunter'', badge ''XP Virtuoso''
          ''With 500 XP points, your power in the realm is undeniable!'' ''trophy'')]"

text \<open>
  \<^verbatim>\<open>fallbackGenerateAchievementBadge\<close>: the lookup converts \<open>achievementType\<close> to
  a key and returns whatever truthy member it finds, own or inherited; the generic
  badge interpolates both arguments. Each conversion may throw.
\<close>

definition fallbackGenerateAchievementBadge :: "jsval \<Rightarrow> jsval \<Rightarrow> js_error + member" where
  "fallbackGenerateAchievementBadge achievementType milestone =
     (case lookupLiteral defaultBadges achievementType of
        Inl e \<Rightarrow> Inl e
      | Inr found \<Rightarrow>
          if truthyMember found then lookupLiteral defaultBadges achievementType
          else
            (case toStringJS achievementType of
               Inl e \<Rightarrow> Inl e
             | Inr a \<Rightarrow>
                 (case toStringJS milestone of
                    Inl e \<Rightarrow> Inl e
                  | Inr m \<Rightarrow>
                      Inr (Own (badge (a @ '' Master'')
                                  (''You'' @ [CHR 0x27] @ ''ve reached the impressive milestone of ''
                                     @ m @ ''!'')
                                  ''medal'')))))"

section \<open>aiTransformer: the three gateway operations\<close>

text \<open>
  Object spread \<^verbatim>\<open>{...v, isAIGenerated: b}\<close>: the own enumerable members of \<open>v\<close>
  in order (the elements of an array and the characters of a string under their
  indices, nothing for the other values and nothing for a member inherited from
  \<^verbatim>\<open>Object.prototype\<close>, whose own members are not enumerable), then the flag.
\<close>

fun ownMembers :: "jsval \<Rightarrow> (string \<times> jsval) list" where
  "ownMembers (JObj kvs) = kvs"
| "ownMembers (JArr xs) = zip (map (\<lambda>i. showInt (int i)) [0..<length xs]) xs"
| "ownMembers (JStr s) = zip (map (\<lambda>i. showInt (int i)) [0..<length s]) (map (\<lambda>c. JStr [c]) s)"
| "ownMembers v = []"

fun enumerableMembers :: "member \<Rightarrow> (string \<times> jsval) list" where
  "enumerableMembers (Own v) = ownMembers v"
| "enumerableMembers (Inherited k) = []"

definition spreadWithFlag :: "member \<Rightarrow> bool \<Rightarrow> jsval" where
  "spreadWithFlag v b =
     JObj (setField ''isAIGenerated'' (JBool b)
             (foldl (\<lambda>acc (k, x). setField k x acc) [] (enumerableMembers v)))"

text \<open>
  \<^verbatim>\<open>transformTaskToQuest\<close>: the body of the \<^verbatim>\<open>try\<close>, the handler of the
  \<^verbatim>\<open>catch\<close> (whose own exceptions leave the function), and the function. The
  \<^verbatim>\<open>try\<close> opens with a log line that interpolates \<open>taskTitle\<close>; when that
  conversion throws, the handler runs without any remote attempt.
\<close>

definition transformTaskToQuest_try :: "world \<Rightarrow> jsval \<Rightarrow> jsval \<Rightarrow> jsval \<Rightarrow> state \<Rightarrow> (js_error + jsval) \<times> state" where
  "transformTaskToQuest_try W taskTitle category difficulty s =
     (case toStringJS taskTitle of
        Inl e \<Rightarrow> (Inl e, s)
      | Inr shown \<Rightarrow>
          if USE_BACKEND_GENERATION W
          then (case callApi W ''transform-task'' ''POST''
                       (JObj [(''taskTitle'', taskTitle), (''category'', category),
                              (''difficulty'', difficulty)]) s of
                  (Inl e, s1) \<Rightarrow> (Inl e, s1)
                | (Inr result, s1) \<Rightarrow>
                    (case getProp result ''questTitle'' of
                       Inl e \<Rightarrow> (Inl e, s1)
                     | Inr qt \<Rightarrow>
                         (case getProp result ''questNarrative'' of
                            Inl e \<Rightarrow> (Inl e, s1)
                          | Inr qn \<Rightarrow>
                              (Inr (JObj [(''questTitle'', qt), (''questNarrative'', qn),
                                          (''isAIGenerated'', JBool True)]), s1))))
          else (Inl (Error ''Using local generation based on .env configuration''), s))"

definition transformTaskToQuest_catch :: "world \<Rightarrow> jsval \<Rightarrow> jsval \<Rightarrow> jsval \<Rightarrow> state \<Rightarrow> (js_error + jsval) \<times> state" where
  "transformTaskToQuest_catch W taskTitle category difficulty s =
     (case fallbackGenerateQuestTitle (randomUnit W (step s)) taskTitle category of
        Inl e \<Rightarrow> (Inl e, s)
      | Inr qt \<Rightarrow>
          (case fallbackGenerateQuestNarrative taskTitle category difficulty of
             Inl e \<Rightarrow> (Inl e, tick s)
           | Inr qn \<Rightarrow>
               (Inr (JObj [(''questTitle'', JStr qt), (''questNarrative'', JStr qn),
                           (''isAIGenerated'', JBool False)]), tick s)))"

definition transformTaskToQuest :: "world \<Rightarrow> jsval \<Rightarrow> jsval \<Rightarrow> jsval \<Rightarrow> state \<Rightarrow> (js_error + jsval) \<times> state" where
  "transformTaskToQuest W taskTitle category difficulty s =
     (case transformTaskToQuest_try W taskTitle category difficulty s of
        (Inl e, s1) \<Rightarrow> transformTaskToQuest_catch W taskTitle category difficulty s1
      | (Inr r, s1) \<Rightarrow> (Inr r, s1))"

text \<open>
  \<^verbatim>\<open>generateMotivationalMessage\<close>. The endpoint handed to \<^verbatim>\<open>callApi\<close> carries a
  random query parameter. \<open>pickMessage\<close> is the reading of the response.
\<close>

definition isObjectType :: "jsval \<Rightarrow> bool" where
  "isObjectType v = (case v of JObj kvs \<Rightarrow> True | JArr xs \<Rightarrow> True | JNull \<Rightarrow> True
                      | _ \<Rightarrow> False)"

definition pickMessage :: "jsval \<Rightarrow> js_error + jsval" where
  "pickMessage result =
     (if \<not> truthy result then Inr result
      else
        (case getProp result ''motivationalMessage'' of
           Inl e \<Rightarrow> Inl e
         | Inr m \<Rightarrow>
             if truthy m then Inr m
             else if isObjectType result
             then (case getProp result ''message'' of
                     Inl e \<Rightarrow> Inl e
                   | Inr msg \<Rightarrow>
                       (case getProp result ''data'' of
                          Inl e \<Rightarrow> Inl e
                        | Inr d \<Rightarrow>
                            (case (if truthy d then getProp d ''motivationalMessage'' else Inr d) of
                               Inl e \<Rightarrow> Inl e
                             | Inr dm \<Rightarrow>
                                 Inr (js_or (js_or (js_or m msg) dm)
                                        (JStr ''Your adventure awaits, brave hero!'')))))
             else Inr result))"

definition generateMotivationalMessage_try :: "world \<Rightarrow> state \<Rightarrow> (js_error + jsval) \<times> state" where
  "generateMotivationalMessage_try W s =
     (if USE_BACKEND_GENERATION W
      then (let uniqueEndpoint = ''motivational-message?random='' @ randomText W (step s) in
            case callApi W uniqueEndpoint ''GET'' JNull (tick s) of
              (Inl e, s1) \<Rightarrow> (Inl e, s1)
            | (Inr result, s1) \<Rightarrow> (pickMessage result, s1))
      else (Inl (Error ''Using local generation based on .env configuration''), s))"

definition generateMotivationalMessage :: "world \<Rightarrow> state \<Rightarrow> (js_error + jsval) \<times> state" where
  "generateMotivationalMessage W s =
     (case generateMotivationalMessage_try W s of
        (Inl e, s1) \<Rightarrow>
          (Inr (JStr (fallbackGenerateMotivationalMessage (randomUnit W (step s1)))), tick s1)
      | (Inr r, s1) \<Rightarrow> (Inr r, s1))"

text \<open>
  \<^verbatim>\<open>generateAchievementBadge\<close>. The \<^verbatim>\<open>try\<close> opens with a log line that
  interpolates \<open>achievementType\<close>; an exception of the fallback generator is raised
  inside the handler and leaves the function.
\<close>

definition generateAchievementBadge_try :: "world \<Rightarrow> jsval \<Rightarrow> jsval \<Rightarrow> state \<Rightarrow> (js_error + jsval) \<times> state" where
  "generateAchievementBadge_try W achievementType milestone s =
     (case toStringJS achievementType of
        Inl e \<Rightarrow> (Inl e, s)
      | Inr shown \<Rightarrow>
          if USE_BACKEND_GENERATION W
          then (case callApi W ''achievement-badge'' ''POST''
                       (JObj [(''achievementType'', achievementType), (''milestone'', milestone)]) s of
                  (Inl e, s1) \<Rightarrow> (Inl e, s1)
                | (Inr result, s1) \<Rightarrow> (Inr (spreadWithFlag (Own result) True), s1))
          else (Inl (Error ''Using local generation based on .env configuration''), s))"

definition generateAchievementBadge :: "world \<Rightarrow> jsval \<Rightarrow> jsval \<Rightarrow> state \<Rightarrow> (js_error + jsval) \<times> state" where
  "generateAchievementBadge W achievementType milestone s =
     (case generateAchievementBadge_try W achievementType milestone s of
        (Inl e, s1) \<Rightarrow>
          (case fallbackGenerateAchievementBadge achievementType milestone of
             Inl e' \<Rightarrow> (Inl e', s1)
           | Inr fallbackBadge \<Rightarrow> (Inr (spreadWithFlag fallbackBadge False), s1))
      | (Inr r, s1) \<Rightarrow> (Inr r, s1))"

section \<open>Definitions used to state the properties\<close>

text \<open>The position at which a string is first seen in a list.\<close>

fun firstIndex :: "string list \<Rightarrow> string \<Rightarrow> nat" where
  "firstIndex [] x = 0"
| "firstIndex (y # ys) x = (if y = x then 0 else Suc (firstIndex ys x))"

text \<open>The request \<^verbatim>\<open>isUrlReachable\<close> sends for a base URL.\<close>

definition probeRequest :: "string \<Rightarrow> http_request" where
  "probeRequest url = \<lparr>reqMethod = ''GET'', reqUrl = healthUrl url, reqBody = None\<rparr>"

text \<open>
  The payload the backend's handler of \<^verbatim>\<open>GET /api/health\<close> sends
  (\<^verbatim>\<open>backend/services/authService.js\<close>): an object with the strings
  \<^verbatim>\<open>status\<close>, \<^verbatim>\<open>message\<close>, \<^verbatim>\<open>version\<close> and the array \<^verbatim>\<open>endpoints\<close>.
\<close>

definition isHealthPayload :: "jsval \<Rightarrow> bool" where
  "isHealthPayload v =
     (case v of
        JObj kvs \<Rightarrow>
          (case (map_of kvs ''status'', map_of kvs ''message'', map_of kvs ''version'',
                 map_of kvs ''endpoints'') of
             (Some (JStr a), Some (JStr b), Some (JStr c), Some (JArr es)) \<Rightarrow> True
           | _ \<Rightarrow> False)
      | _ \<Rightarrow> False)"

subsection \<open>The text of a JSON value\<close>

text \<open>
  The text that stands for a value of the grammar, written without white space, and
  the value of the grammar that \<^verbatim>\<open>JSON.stringify\<close> writes for a JavaScript
  value: \<^verbatim>\<open>undefined\<close> becomes \<^verbatim>\<open>null\<close> in an array and disappears from an
  object.
\<close>

primrec renderJson :: "json \<Rightarrow> string" where
  "renderJson JsNull = ''null''"
| "renderJson (JsBool b) = (if b then ''true'' else ''false'')"
| "renderJson (JsNum n) = showInt n"
| "renderJson (JsStr s) = quoteJSON s"
| "renderJson (JsArr xs) = ''['' @ joinWith '','' (map renderJson xs) @ '']''"
| "renderJson (JsObj kvs) =
     ''{'' @ joinWith '','' (map (\<lambda>(k, t). quoteJSON k @ '':'' @ t) (map (map_prod id renderJson) kvs)) @ ''}''"

definition renderMember :: "string \<times> json \<Rightarrow> string" where
  "renderMember kv = quoteJSON (fst kv) @ '':'' @ renderJson (snd kv)"

fun toJson :: "jsval \<Rightarrow> json" where
  "toJson JUndefined = JsNull"
| "toJson JNull = JsNull"
| "toJson (JBool b) = JsBool b"
| "toJson (JNum n) = JsNum n"
| "toJson (JStr s) = JsStr s"
| "toJson (JArr xs) = JsArr (map toJson xs)"
| "toJson (JObj kvs) =
     JsObj (map (\<lambda>(k, v). (k, toJson v)) (filter (\<lambda>(k, v). v \<noteq> JUndefined) kvs))"

text \<open>
  The values that JSON can carry: no \<^verbatim>\<open>undefined\<close> anywhere, and no key twice
  in an object (which holds of every JavaScript object).
\<close>

fun isJSON :: "jsval \<Rightarrow> bool" where
  "isJSON JUndefined = False"
| "isJSON (JArr xs) = list_all isJSON xs"
| "isJSON (JObj kvs) = (distinct (map fst kvs) \<and> list_all isJSON (map snd kvs))"
| "isJSON v = True"

text \<open>
  What may follow a value inside a rendered text, and the statement that the reader
  gets a rendered value back whatever follows it.
\<close>

definition okRest :: "string \<Rightarrow> bool" where
  "okRest rest = (rest = [] \<or> hd rest \<in> set '',]}'')"

definition roundTrips :: "json \<Rightarrow> bool" where
  "roundTrips j =
     (\<forall>n rest. length (renderJson j) < n \<longrightarrow> okRest rest
        \<longrightarrow> parseValue n (renderJson j @ rest) = Some (j, rest))"

subsection \<open>The sentences of a fallback narrative\<close>

text \<open>
  The narrative as the specification describes it: a base sentence chosen by the
  first category word that the lower-cased category contains, "personal" otherwise,
  and a modifier sentence for the difficulty tiers mini, normal and boss, any other
  difficulty counting as normal.
\<close>

definition categorySentence :: "string \<Rightarrow> string" where
  "categorySentence c =
     (if includesStr c ''work''
      then ''The Guild requires your expertise. Complete this task to gain favor with the Guild Masters.''
      else if includesStr c ''education'' \<or> includesStr c ''learning''
      then ''Ancient knowledge awaits your discovery. Master this arcane challenge to expand your wisdom.''
      else if includesStr c ''fitness'' \<or> includesStr c ''health''
      then ''A warrior'' @ [CHR 0x27] @ ''s strength comes from consistent training. Push through this challenge to enhance your power.''
      else if includesStr c ''home'' \<or> includesStr c ''chores''
      then ''The village needs your attention. Restore order to this area to improve the prosperity of your domain.''
      else ''Your personal quest awaits. Success will bring you closer to fulfilling your destiny.'')"

definition difficultySentence :: "string \<Rightarrow> string" where
  "difficultySentence k =
     (if k = ''mini''
      then ''This is but a small step in your journey, yet important nonetheless.''
      else if k = ''boss''
      then ''Beware, adventurer! This formidable task will require all your skill and courage to overcome.''
      else ''A worthy challenge that will test your resolve and determination.'')"

text \<open>An argument whose conversion to a string throws: an object with an own \<^verbatim>\<open>toString\<close>.\<close>

definition stubbornObject :: jsval where
  "stubbornObject = JObj [(''toString'', JStr ''x'')]"

subsection \<open>Concrete worlds and states\<close>

text \<open>
  A device without network: remote generation is switched on, every request fails,
  the connectivity check reports no connection, the store never fails.
\<close>

definition offlineWorld :: world where
  "offlineWorld = \<lparr>EXPO_PUBLIC_API_URL = None,
     EXPO_PUBLIC_USE_BACKEND_GENERATION = Some ''true'',
     EXPO_PUBLIC_ENABLE_API_CACHE = None,
     cacheExpiryHours = None,
     platformOS = ''android'',
     constants = None,
     net = (\<lambda>n rq. Rejected (TypeError ''Network request failed'')),
     storageFails = (\<lambda>n. False),
     netInfo = (\<lambda>n. NetInfoState (Some False)),
     clock = (\<lambda>n. 1700000000000 + int n),
     randomUnit = (\<lambda>n. 0),
     randomText = (\<lambda>n. ''0.5''),
     stringToNumber = (\<lambda>s. None)\<rparr>"

definition emptyState :: state where
  "emptyState = \<lparr>storage = (\<lambda>k. None), discoveredBackendUrl = None, httpLog = [], step = 0\<rparr>"

text \<open>The store remembers a backend URL that no longer answers.\<close>

definition staleUrlState :: state where
  "staleUrlState =
     emptyState\<lparr>storage := [''working_backend_url'' \<mapsto> ''http://192.168.1.7:3000/api'']\<rparr>"

text \<open>An iOS simulator with a configured override and a host reported by Expo.\<close>

definition overrideWorld :: world where
  "overrideWorld = offlineWorld\<lparr>EXPO_PUBLIC_API_URL := Some ''http://10.1.2.3:3000/api'',
     platformOS := ''ios'',
     constants := Some \<lparr>expoConfigHostUri = Some (Some ''192.168.1.7:8081''), manifest = None\<rparr>\<rparr>"

text \<open>Some other server answers every request with status 200 and the JSON text \<^verbatim>\<open>[]\<close>.\<close>

definition jsonArrayWorld :: world where
  "jsonArrayWorld =
     offlineWorld\<lparr>net := (\<lambda>n rq. Resolved \<lparr>status = 200, bodyText = ''[]'', bodyJson = Some (JsArr [])\<rparr>)\<rparr>"

text \<open>Remote generation switched off by configuration (the variable is not set).\<close>

definition disabledWorld :: world where
  "disabledWorld = offlineWorld\<lparr>EXPO_PUBLIC_USE_BACKEND_GENERATION := None\<rparr>"

text \<open>The gateway already knows a backend URL; nothing is stored.\<close>

definition knownUrlState :: state where
  "knownUrlState = emptyState\<lparr>discoveredBackendUrl := Some ''http://localhost:3000/api''\<rparr>"

text \<open>
  A backend that answers every request with status 200 and the body
  \<^verbatim>\<open>{"success":true,"motivationalMessage":"Onward!"}\<close>.
\<close>

definition messageServerWorld :: world where
  "messageServerWorld =
     offlineWorld\<lparr>net := (\<lambda>n rq. Resolved \<lparr>status = 200,
        bodyText = [CHR ''{'', CHR 0x22] @ ''success'' @ [CHR 0x22] @ '':true,'' @ [CHR 0x22]
                     @ ''motivationalMessage'' @ [CHR 0x22, CHR '':'', CHR 0x22] @ ''Onward!''
                     @ [CHR 0x22, CHR ''}''],
        bodyJson = Some (JsObj [(''success'', JsBool True),
                                (''motivationalMessage'', JsStr ''Onward!'')])\<rparr>)\<rparr>"

text \<open>No remote connectivity: every request the device sends is rejected.\<close>

definition noConnectivity :: "world \<Rightarrow> bool" where
  "noConnectivity W = (\<forall>n rq. \<exists>e. net W n rq = Rejected e)"

subsection \<open>Frame of the locator\<close>

text \<open>
  From \<open>s\<close> to \<open>s'\<close> no request is forgotten and no stored value changes except
  the remembered backend URL.
\<close>

definition keepsCache :: "state \<Rightarrow> state \<Rightarrow> bool" where
  "keepsCache s s' =
     (length (httpLog s) \<le> length (httpLog s')
      \<and> (\<forall>k. k \<noteq> ''working_backend_url'' \<longrightarrow> storage s' k = storage s k))"

subsection \<open>A cached badge\<close>

text \<open>
  The payload of an achievement-badge request, a badge as the backend sends it, and
  the text of its cache entry written at time 1700000000000.
\<close>

definition badgeBody :: jsval where
  "badgeBody = JObj [(''achievementType'', JStr ''First Quest''), (''milestone'', JNum 1)]"

definition cachedBadge :: jsval where
  "cachedBadge = JObj [(''badgeName'', JStr ''Trailblazer''), (''iconType'', JStr ''boot'')]"

definition cachedText :: string where
  "cachedText = JSON_stringify (cacheEntry cachedBadge 1700000000000)"

text \<open>The store holds that entry; the gateway knows a backend URL.\<close>

definition cachedState :: state where
  "cachedState =
     knownUrlState\<lparr>storage := [cacheKey ''achievement-badge'' badgeBody \<mapsto> cachedText]\<rparr>"

text \<open>Reads 23 h 59 min and 24 h 01 min after the entry was written; no network.\<close>

definition freshWorld :: world where
  "freshWorld = offlineWorld\<lparr>clock := (\<lambda>n. 1700000000000 + 86340000)\<rparr>"

definition expiredWorld :: world where
  "expiredWorld = offlineWorld\<lparr>clock := (\<lambda>n. 1700000000000 + 86460000)\<rparr>"



section \<open>Properties\<close>

subsection \<open>Reading back what \<^verbatim>\<open>JSON.stringify\<close> wrote: digits\<close>

lemma digitVal_digit: "d < 10 \<Longrightarrow> digitVal (''0123456789'' ! d) = Some d"
proof -
  assume "d < 10"
  then have "d = 0 \<or> d = 1 \<or> d = 2 \<or> d = 3 \<or> d = 4 \<or> d = 5 \<or> d = 6 \<or> d = 7 \<or> d = 8 \<or> d = 9"
    by arith
  then show ?thesis
    by (auto simp: digitVal_def upt_conv_Cons)
qed

lemma digit_not_special:
  "d < 10 \<Longrightarrow> ''0123456789'' ! d \<notin> set ''.eE,]}- '' \<and> \<not> isWs (''0123456789'' ! d)"
proof -
  assume "d < 10"
  then have "d = 0 \<or> d = 1 \<or> d = 2 \<or> d = 3 \<or> d = 4 \<or> d = 5 \<or> d = 6 \<or> d = 7 \<or> d = 8 \<or> d = 9"
    by arith
  then show ?thesis
    by (auto simp: isWs_def)
qed

lemma digit_zero: "d < 10 \<Longrightarrow> (''0123456789'' ! d = CHR ''0'') = (d = 0)"
proof -
  assume "d < 10"
  then have "d = 0 \<or> d = 1 \<or> d = 2 \<or> d = 3 \<or> d = 4 \<or> d = 5 \<or> d = 6 \<or> d = 7 \<or> d = 8 \<or> d = 9"
    by arith
  then show ?thesis by auto
qed

lemma digitsOf_all: "\<forall>c \<in> set (digitsOf n). isDigit c"
proof (induction n rule: digitsOf.induct)
  case (1 n)
  show ?case
  proof (cases "n < 10")
    case True
    then show ?thesis
      by (simp add: digitsOf.simps [of n] isDigit_def digitVal_digit)
  next
    case False
    then show ?thesis
      using 1 by (simp add: digitsOf.simps [of n] isDigit_def digitVal_digit)
  qed
qed

lemma digitsOf_nonempty: "digitsOf n \<noteq> []"
  by (subst digitsOf.simps) simp

lemma digitsVal_snoc: "digitsVal (ds @ [c]) = 10 * digitsVal ds + the (digitVal c)"
  by (simp add: digitsVal_def)

lemma digitsVal_digitsOf: "digitsVal (digitsOf n) = n"
proof (induction n rule: digitsOf.induct)
  case (1 n)
  show ?case
  proof (cases "n < 10")
    case True
    then show ?thesis
      by (simp add: digitsOf.simps [of n] digitsVal_def digitVal_digit)
  next
    case False
    then show ?thesis
      using 1 by (simp add: digitsOf.simps [of n] digitsVal_snoc digitVal_digit)
  qed
qed

lemma digitsOf_hd: "hd (digitsOf n) = CHR ''0'' \<Longrightarrow> n = 0"
proof (induction n rule: digitsOf.induct)
  case (1 n)
  show ?case
  proof (cases "n < 10")
    case True
    then show ?thesis
      using 1(2) by (simp add: digitsOf.simps [of n] digit_zero)
  next
    case False
    then have "hd (digitsOf n) = hd (digitsOf (n div 10))"
      by (simp add: digitsOf.simps [of n] digitsOf_nonempty)
    then have "n div 10 = 0" using 1 False by simp
    then show ?thesis using False by simp
  qed
qed

lemma digitsOf_zero_length: "hd (digitsOf n) = CHR ''0'' \<Longrightarrow> length (digitsOf n) = 1"
  using digitsOf_hd [of n] by (simp add: digitsOf.simps [of 0])

lemma digitsOf_hd_digit: "isDigit (hd (digitsOf n))"
  using digitsOf_all [of n] digitsOf_nonempty [of n] by (cases "digitsOf n") auto

lemma okRest_not_digit: "okRest rest \<Longrightarrow> rest \<noteq> [] \<Longrightarrow> \<not> isDigit (hd rest) \<and> hd rest \<notin> set ''.eE''"
  by (auto simp: okRest_def isDigit_def digitVal_def upt_conv_Cons)

lemma span_digits:
  assumes "okRest rest"
  shows "takeWhile isDigit (digitsOf n @ rest) = digitsOf n"
    and "dropWhile isDigit (digitsOf n @ rest) = rest"
proof -
  have r: "rest = [] \<or> \<not> isDigit (hd rest)"
    using okRest_not_digit [OF assms] by blast
  have t: "takeWhile isDigit rest = []"
    using r by (cases rest) auto
  have d: "dropWhile isDigit rest = rest"
    using r by (cases rest) auto
  show "takeWhile isDigit (digitsOf n @ rest) = digitsOf n"
    using digitsOf_all [of n] t by (simp add: takeWhile_append2)
  show "dropWhile isDigit (digitsOf n @ rest) = rest"
    using digitsOf_all [of n] d by (simp add: dropWhile_append2)
qed

lemma minus_not_digit: "\<not> isDigit (CHR ''-'')"
  by (simp add: isDigit_def digitVal_def upt_conv_Cons)

lemma parseNumber_showInt:
  assumes "okRest rest"
  shows "parseNumber (showInt n @ rest) = Some (n, rest)"
proof (cases "n < 0")
  case True
  let ?ds = "digitsOf (nat (- n))"
  have z: "\<not> (hd ?ds = CHR ''0'' \<and> 1 < length ?ds)"
    using digitsOf_zero_length [of "nat (- n)"] by auto
  show ?thesis
    using True z okRest_not_digit [OF assms] digitsOf_nonempty [of "nat (- n)"]
    by (auto simp: parseNumber_def showInt_def Let_def span_digits [OF assms] digitsVal_digitsOf)
next
  case False
  let ?ds = "digitsOf (nat n)"
  have h: "hd (?ds @ rest) \<noteq> CHR ''-''"
    using digitsOf_hd_digit [of "nat n"] digitsOf_nonempty [of "nat n"] minus_not_digit
    by (cases ?ds) auto
  have z: "\<not> (hd ?ds = CHR ''0'' \<and> 1 < length ?ds)"
    using digitsOf_zero_length [of "nat n"] by auto
  show ?thesis
    using False h z okRest_not_digit [OF assms] digitsOf_nonempty [of "nat n"]
    by (auto simp: parseNumber_def showInt_def Let_def span_digits [OF assms] digitsVal_digitsOf)
qed

subsection \<open>Reading back: strings\<close>

lemma hexVal_hexDigit: "d < 16 \<Longrightarrow> hexVal (hexDigit d) = Some d"
proof -
  assume "d < 16"
  then have "d = 0 \<or> d = 1 \<or> d = 2 \<or> d = 3 \<or> d = 4 \<or> d = 5 \<or> d = 6 \<or> d = 7 \<or> d = 8
      \<or> d = 9 \<or> d = 10 \<or> d = 11 \<or> d = 12 \<or> d = 13 \<or> d = 14 \<or> d = 15"
    by arith
  then show ?thesis
    by (elim disjE) (simp_all add: hexVal_def hexDigit_def upt_conv_Cons)
qed

lemma hexVal_zero: "hexVal (CHR ''0'') = Some 0"
  by (simp add: hexVal_def upt_conv_Cons)

lemma parseChars_escapeChar:
  "parseChars (escapeChar c @ rest) = map_option (\<lambda>(s, t). (c # s, t)) (parseChars rest)"
proof -
  consider (dq) "c = CHR 0x22" | (bs) "c = CHR 0x5C"
    | (short) "c \<in> {CHR 0x08, CHR 0x0C, CHR 0x0A, CHR 0x0D, CHR 0x09}"
    | (ctl) "c \<noteq> CHR 0x22" "c \<noteq> CHR 0x5C"
        "c \<notin> {CHR 0x08, CHR 0x0C, CHR 0x0A, CHR 0x0D, CHR 0x09}" "(of_char c :: nat) < 32"
    | (raw) "c \<noteq> CHR 0x22" "c \<noteq> CHR 0x5C"
        "c \<notin> {CHR 0x08, CHR 0x0C, CHR 0x0A, CHR 0x0D, CHR 0x09}" "\<not> (of_char c :: nat) < 32"
    by blast
  then show ?thesis
  proof cases
    case dq
    then show ?thesis by (simp add: escapeChar_def unescape_def)
  next
    case bs
    then show ?thesis by (simp add: escapeChar_def unescape_def)
  next
    case short
    then show ?thesis by (auto simp: escapeChar_def unescape_def)
  next
    case ctl
    let ?n = "of_char c :: nat"
    have h: "hexVal (hexDigit (?n div 16)) = Some (?n div 16)"
      "hexVal (hexDigit (?n mod 16)) = Some (?n mod 16)"
      using ctl(4) by (simp_all add: hexVal_hexDigit)
    have c: "char_of (16 * (?n div 16) + ?n mod 16) = c"
      by simp
    show ?thesis
      using ctl c by (simp add: escapeChar_def Let_def hexVal_zero h)
  next
    case raw
    then show ?thesis by (simp add: escapeChar_def Let_def)
  qed
qed

lemma parseChars_escaped:
  "parseChars (concat (map escapeChar s) @ CHR 0x22 # rest) = Some (s, rest)"
  by (induction s) (simp_all add: parseChars_escapeChar)

lemma parseChars_quoteJSON:
  "parseChars (tl (quoteJSON s) @ rest) = Some (s, rest)"
  using parseChars_escaped [of s rest] by (simp add: quoteJSON_def)

subsection \<open>Reading back: values\<close>

lemma joinWith_single: "joinWith sep [x] = x"
  by (simp add: joinWith_def)

lemma joinWith_cons: "joinWith sep (x # y # ys) = x @ sep @ joinWith sep (y # ys)"
  by (simp add: joinWith_def)

lemma skipWs_keep: "\<not> isWs c \<Longrightarrow> skipWs (c # cs) = c # cs"
  by (simp add: skipWs_def)

lemma quoteJSON_cons: "quoteJSON s = CHR 0x22 # tl (quoteJSON s)"
  by (simp add: quoteJSON_def)

lemma showInt_cons:
  "\<exists>c cs. showInt n = c # cs \<and> (isDigit c \<or> c = CHR ''-'')"
proof (cases "n < 0")
  case True
  then show ?thesis by (simp add: showInt_def)
next
  case False
  then show ?thesis
    using digitsOf_hd_digit [of "nat n"] digitsOf_nonempty [of "nat n"]
    by (cases "digitsOf (nat n)") (auto simp: showInt_def)
qed

lemma number_start:
  assumes "isDigit c \<or> c = CHR ''-''"
  shows "\<not> isWs c" "c \<noteq> CHR ''{''" "c \<noteq> CHR ''[''" "c \<noteq> CHR 0x22"
    "c \<noteq> CHR ''t''" "c \<noteq> CHR ''f''" "c \<noteq> CHR ''n''"
  using assms by (auto simp: isDigit_def digitVal_def isWs_def upt_conv_Cons)

lemma renderJson_nonempty: "renderJson j \<noteq> []"
proof (cases j)
  case (JsNum n)
  then show ?thesis using showInt_cons [of n] by auto
qed (auto simp: quoteJSON_def)

lemma okRest_cons: "okRest (CHR '','' # r)" "okRest (CHR '']'' # r)" "okRest (CHR ''}'' # r)"
  by (simp_all add: okRest_def)

lemma parseElems_rendered:
  assumes "\<forall>x \<in> set xs. roundTrips x" and "xs \<noteq> []"
    and "length (joinWith '','' (map renderJson xs)) + 1 < n"
  shows "parseElems n (joinWith '','' (map renderJson xs) @ CHR '']'' # rest) = Some (xs, rest)"
  using assms
proof (induction xs arbitrary: n)
  case Nil
  then show ?case by simp
next
  case (Cons x xs)
  obtain m where n: "n = Suc m" using Cons.prems(3) by (cases n) auto
  have rx: "roundTrips x" using Cons.prems(1) by simp
  show ?case
  proof (cases xs)
    case Nil
    have len: "length (renderJson x) < m"
      using Cons.prems(3) n Nil by (simp add: joinWith_single)
    have inp: "joinWith '','' (map renderJson (x # xs)) @ CHR '']'' # rest
        = renderJson x @ CHR '']'' # rest"
      by (simp add: Nil joinWith_single)
    have pv: "parseValue m (renderJson x @ CHR '']'' # rest) = Some (x, CHR '']'' # rest)"
      using rx len okRest_cons(2) [of rest] unfolding roundTrips_def by blast
    show ?thesis
      unfolding n inp parseElems.simps pv
      by (simp add: Nil skipWs_keep isWs_def)
  next
    case (Cons y ys)
    let ?tail = "joinWith '','' (map renderJson (y # ys))"
    have j: "joinWith '','' (map renderJson (x # xs)) = renderJson x @ '','' @ ?tail"
      by (simp add: Cons joinWith_cons)
    have len: "length (renderJson x) < m"
      using Cons.prems(3) n j by simp
    have lent: "length ?tail + 1 < m"
      using Cons.prems(3) n j renderJson_nonempty [of x] by (cases "renderJson x") auto
    have pv: "parseValue m (renderJson x @ CHR '','' # ?tail @ CHR '']'' # rest)
        = Some (x, CHR '','' # ?tail @ CHR '']'' # rest)"
      using rx len okRest_cons(1) unfolding roundTrips_def by blast
    have pe: "parseElems m (?tail @ CHR '']'' # rest) = Some (y # ys, rest)"
      using Cons.IH [of m] Cons.prems(1) lent Cons by simp
    have inp: "joinWith '','' (map renderJson (x # xs)) @ CHR '']'' # rest
        = renderJson x @ CHR '','' # ?tail @ CHR '']'' # rest"
      using j by simp
    show ?thesis
      unfolding n inp parseElems.simps pv
      by (simp add: skipWs_keep isWs_def pe [simplified] Cons)
  qed
qed

lemma renderMembers_map:
  "map (\<lambda>(k, t). quoteJSON k @ '':'' @ t) (map (map_prod id renderJson) kvs) = map renderMember kvs"
  by (induction kvs) (auto simp: renderMember_def)

lemma renderJson_obj:
  "renderJson (JsObj kvs) = ''{'' @ joinWith '','' (map renderMember kvs) @ ''}''"
  by (simp only: renderJson.simps renderMembers_map)

lemma renderMember_cons: "renderMember kv = CHR 0x22 # tl (renderMember kv)"
  by (simp add: renderMember_def quoteJSON_def)

lemma renderMember_length: "length (renderJson (snd kv)) + 3 \<le> length (renderMember kv)"
  by (simp add: renderMember_def quoteJSON_def)

lemma skipWs_member: "skipWs (renderMember kv @ r) = renderMember kv @ r"
  by (simp add: renderMember_def quoteJSON_def skipWs_def isWs_def)

lemma parseMembers_rendered:
  assumes "\<forall>kv \<in> set kvs. roundTrips (snd kv)" and "kvs \<noteq> []"
    and "length (joinWith '','' (map renderMember kvs)) + 1 < n"
  shows "parseMembers n (joinWith '','' (map renderMember kvs) @ CHR ''}'' # rest) = Some (kvs, rest)"
  using assms
proof (induction kvs arbitrary: n)
  case Nil
  then show ?case by simp
next
  case (Cons kv kvs)
  obtain m where n: "n = Suc m" using Cons.prems(3) by (cases n) auto
  obtain k v where kv: "kv = (k, v)" by (cases kv)
  have rv: "roundTrips v" using Cons.prems(1) kv by simp
  have rm: "renderMember kv = CHR 0x22 # tl (quoteJSON k) @ CHR '':'' # renderJson v"
    by (simp add: renderMember_def kv quoteJSON_def)
  show ?case
  proof (cases kvs)
    case Nil
    have len: "length (renderJson v) < m"
      using Cons.prems(3) n Nil renderMember_length [of kv] kv by (simp add: joinWith_single)
    have pv: "parseValue m (renderJson v @ CHR ''}'' # rest) = Some (v, CHR ''}'' # rest)"
      using rv len okRest_cons(3) [of rest] unfolding roundTrips_def by blast
    have pc: "parseChars (tl (quoteJSON k) @ CHR '':'' # renderJson v @ CHR ''}'' # rest)
        = Some (k, CHR '':'' # renderJson v @ CHR ''}'' # rest)"
      by (rule parseChars_quoteJSON)
    have inp: "joinWith '','' (map renderMember (kv # kvs)) @ CHR ''}'' # rest
        = CHR 0x22 # tl (quoteJSON k) @ CHR '':'' # renderJson v @ CHR ''}'' # rest"
      by (simp add: Nil joinWith_single rm)
    show ?thesis
      unfolding n inp parseMembers.simps
      by (simp add: pc pv skipWs_keep isWs_def Nil kv)
  next
    case (Cons kv' kvs')
    let ?tail = "joinWith '','' (map renderMember (kv' # kvs'))"
    have j: "joinWith '','' (map renderMember (kv # kvs)) = renderMember kv @ '','' @ ?tail"
      by (simp add: Cons joinWith_cons)
    have len: "length (renderJson v) < m"
      using Cons.prems(3) n j renderMember_length [of kv] kv by simp
    have lent: "length ?tail + 1 < m"
      using Cons.prems(3) n j renderMember_length [of kv] by simp
    have pc: "parseChars (tl (quoteJSON k) @ CHR '':'' # renderJson v @ CHR '','' # ?tail @ CHR ''}'' # rest)
        = Some (k, CHR '':'' # renderJson v @ CHR '','' # ?tail @ CHR ''}'' # rest)"
      by (rule parseChars_quoteJSON)
    have pv: "parseValue m (renderJson v @ CHR '','' # ?tail @ CHR ''}'' # rest)
        = Some (v, CHR '','' # ?tail @ CHR ''}'' # rest)"
      using rv len okRest_cons(1) unfolding roundTrips_def by blast
    have pm: "parseMembers m (?tail @ CHR ''}'' # rest) = Some (kv' # kvs', rest)"
      using Cons.IH [of m] Cons.prems(1) lent Cons by simp
    have "\<exists>r. ?tail @ CHR ''}'' # rest = renderMember kv' @ r"
      by (simp add: joinWith_def)
    then obtain r where "?tail @ CHR ''}'' # rest = renderMember kv' @ r" by blast
    then have sk: "skipWs (?tail @ CHR ''}'' # rest) = ?tail @ CHR ''}'' # rest"
      by (simp only: skipWs_member)
    have inp: "joinWith '','' (map renderMember (kv # kvs)) @ CHR ''}'' # rest
        = CHR 0x22 # tl (quoteJSON k) @ CHR '':'' # renderJson v @ CHR '','' # ?tail @ CHR ''}'' # rest"
      using j by (simp add: rm)
    show ?thesis
      unfolding n inp parseMembers.simps
      by (simp add: pc [simplified] pv [simplified] skipWs_keep isWs_def sk [simplified]
          pm [simplified] kv Cons)
  qed
qed

lemma rt_null: "roundTrips JsNull"
  unfolding roundTrips_def
proof (intro allI impI)
  fix n rest assume "length (renderJson JsNull) < n" "okRest rest"
  then obtain m where "n = Suc m" by (cases n) auto
  then show "parseValue n (renderJson JsNull @ rest) = Some (JsNull, rest)"
    by (simp add: skipWs_def isWs_def)
qed

lemma rt_bool: "roundTrips (JsBool b)"
  unfolding roundTrips_def
proof (intro allI impI)
  fix n rest assume "length (renderJson (JsBool b)) < n" "okRest rest"
  then obtain m where "n = Suc m" by (cases n) auto
  then show "parseValue n (renderJson (JsBool b) @ rest) = Some (JsBool b, rest)"
    by (simp add: skipWs_def isWs_def)
qed

lemma rt_num: "roundTrips (JsNum i)"
  unfolding roundTrips_def
proof (intro allI impI)
  fix n rest assume a: "length (renderJson (JsNum i)) < n" "okRest rest"
  then obtain m where n: "n = Suc m" by (cases n) auto
  obtain c cs where sh: "showInt i = c # cs" and st: "isDigit c \<or> c = CHR ''-''"
    using showInt_cons by blast
  have pn: "parseNumber (c # cs @ rest) = Some (i, rest)"
    using parseNumber_showInt [OF a(2), of i] sh by simp
  show "parseValue n (renderJson (JsNum i) @ rest) = Some (JsNum i, rest)"
    using number_start [OF st]
    by (simp add: n sh skipWs_keep pn)
qed

lemma rt_str: "roundTrips (JsStr str)"
  unfolding roundTrips_def
proof (intro allI impI)
  fix n rest assume "length (renderJson (JsStr str)) < n" "okRest rest"
  then obtain m where n: "n = Suc m" by (cases n) auto
  have q: "renderJson (JsStr str) @ rest = CHR 0x22 # tl (quoteJSON str) @ rest"
    by (simp add: quoteJSON_def)
  show "parseValue n (renderJson (JsStr str) @ rest) = Some (JsStr str, rest)"
    unfolding n q parseValue.simps
    by (simp add: skipWs_keep isWs_def parseChars_quoteJSON)
qed

lemma renderJson_hd:
  "\<exists>c cs. renderJson j = c # cs \<and> \<not> isWs c \<and> c \<noteq> CHR '']''"
proof (cases j)
  case (JsNum i)
  obtain c cs where sh: "showInt i = c # cs" and st: "isDigit c \<or> c = CHR ''-''"
    using showInt_cons by blast
  have "c \<noteq> CHR '']''"
    using st by (auto simp: isDigit_def digitVal_def upt_conv_Cons)
  then show ?thesis
    using number_start(1) [OF st] sh JsNum by simp
qed (simp_all add: quoteJSON_def isWs_def)

lemma rt_arr:
  assumes ih: "\<forall>x \<in> set xs. roundTrips x"
  shows "roundTrips (JsArr xs)"
  unfolding roundTrips_def
proof (intro allI impI)
  fix n rest assume a: "length (renderJson (JsArr xs)) < n" "okRest rest"
  then obtain m where n: "n = Suc m" by (cases n) auto
  show "parseValue n (renderJson (JsArr xs) @ rest) = Some (JsArr xs, rest)"
  proof (cases xs)
    case Nil
    then show ?thesis by (simp add: n joinWith_def skipWs_def isWs_def)
  next
    case (Cons y ys)
    let ?body = "joinWith '','' (map renderJson xs)"
    have inp: "renderJson (JsArr xs) @ rest = CHR ''['' # ?body @ CHR '']'' # rest"
      by simp
    have len: "length ?body + 1 < m"
      using a(1) n by simp
    have ne: "xs \<noteq> []" using Cons by simp
    have pe: "parseElems m (?body @ CHR '']'' # rest) = Some (xs, rest)"
      by (rule parseElems_rendered [OF ih ne len])
    obtain c cs where hd: "renderJson y = c # cs" and nws: "\<not> isWs c" "c \<noteq> CHR '']''"
      using renderJson_hd [of y] by blast
    obtain tl where b: "?body @ CHR '']'' # rest = c # tl"
      by (simp add: Cons joinWith_def hd)
    show ?thesis
      unfolding n inp parseValue.simps b [symmetric]
      using pe nws unfolding b
      by (simp add: skipWs_keep isWs_def)
  qed
qed

lemma rt_obj:
  assumes ih: "\<forall>kv \<in> set kvs. roundTrips (snd kv)"
  shows "roundTrips (JsObj kvs)"
  unfolding roundTrips_def
proof (intro allI impI)
  fix n rest assume a: "length (renderJson (JsObj kvs)) < n" "okRest rest"
  then obtain m where n: "n = Suc m" by (cases n) auto
  show "parseValue n (renderJson (JsObj kvs) @ rest) = Some (JsObj kvs, rest)"
  proof (cases kvs)
    case Nil
    then show ?thesis by (simp add: n joinWith_def skipWs_def isWs_def)
  next
    case (Cons kv kvs')
    let ?body = "joinWith '','' (map renderMember kvs)"
    have inp: "renderJson (JsObj kvs) @ rest = CHR ''{'' # ?body @ CHR ''}'' # rest"
      by (simp only: renderJson_obj) simp
    have len: "length ?body + 1 < m"
      using a(1) n unfolding renderJson_obj by simp
    have ne: "kvs \<noteq> []" using Cons by simp
    have pm: "parseMembers m (?body @ CHR ''}'' # rest) = Some (kvs, rest)"
      by (rule parseMembers_rendered [OF ih ne len])
    obtain cs where rm: "renderMember kv = CHR 0x22 # cs"
      using renderMember_cons [of kv] by blast
    obtain tl where b: "?body @ CHR ''}'' # rest = CHR 0x22 # tl"
      by (simp add: Cons joinWith_def rm)
    show ?thesis
      unfolding n inp parseValue.simps
      using pm unfolding b
      by (simp add: skipWs_keep isWs_def)
  qed
qed

lemma roundTrips_all: "roundTrips j"
proof (induction j)
  case (JsArr xs)
  then show ?case by (intro rt_arr) blast
next
  case (JsObj kvs)
  have "\<forall>kv \<in> set kvs. roundTrips (snd kv)"
    using JsObj by (auto simp: snds.simps)
  then show ?case by (rule rt_obj)
qed (rule rt_null rt_bool rt_num rt_str)+

theorem parseJson_renderJson: "parseJson (renderJson j) = Some j"
proof -
  have r: "roundTrips j" by (rule roundTrips_all)
  have ok: "okRest []" by (simp add: okRest_def)
  have "parseValue (Suc (length (renderJson j))) (renderJson j @ []) = Some (j, [])"
    using r ok unfolding roundTrips_def by blast
  then have pv: "parseValue (Suc (length (renderJson j))) (renderJson j) = Some (j, [])"
    by (simp only: append_Nil2)
  show ?thesis
    unfolding parseJson_def pv by (simp add: skipWs_def)
qed

subsection \<open>Values that JSON carries\<close>





lemma setField_new: "k \<notin> set (map fst kvs) \<Longrightarrow> setField k v kvs = kvs @ [(k, v)]"
  by (induction kvs) auto



lemma foldl_setField_distinct:
  assumes "distinct (map fst (acc @ kvs))"
  shows "foldl (\<lambda>acc (k, v). setField k v acc) acc kvs = acc @ kvs"
  using assms
proof (induction kvs arbitrary: acc)
  case Nil
  then show ?case by simp
next
  case (Cons kv kvs)
  obtain k v where kv: "kv = (k, v)" by (cases kv)
  have new: "k \<notin> set (map fst acc)"
    using Cons.prems kv by auto
  have "distinct (map fst ((acc @ [(k, v)]) @ kvs))"
    using Cons.prems kv by simp
  then show ?case
    using Cons.IH [of "acc @ [(k, v)]"] by (simp add: kv setField_new [OF new])
qed


text \<open>\<^verbatim>\<open>JSON.stringify\<close> writes the text of the value of the grammar it stands for.\<close>

lemma JSON_stringify_render:
  "v \<noteq> JUndefined \<Longrightarrow> JSON_stringify v = renderJson (toJson v)"
proof (induction v)
  case (JArr xs)
  have "map (\<lambda>x. if x = JUndefined then ''null'' else JSON_stringify x) xs
          = map renderJson (map toJson xs)"
    using JArr.IH by (induction xs) auto
  then show ?case by (simp only: JSON_stringify.simps toJson.simps renderJson.simps)
next
  case (JObj kvs)
  have ih: "\<forall>kv \<in> set kvs. snd kv \<noteq> JUndefined
                \<longrightarrow> JSON_stringify (snd kv) = renderJson (toJson (snd kv))"
    using JObj.IH by (auto simp: snds.simps)
  have "map (\<lambda>(k, v). quoteJSON k @ '':'' @ JSON_stringify v) (filter (\<lambda>(k, v). v \<noteq> JUndefined) kvs)
          = map renderMember (map (\<lambda>(k, v). (k, toJson v)) (filter (\<lambda>(k, v). v \<noteq> JUndefined) kvs))"
    using ih by (induction kvs) (auto simp: renderMember_def)
  then show ?case by (simp only: JSON_stringify.simps toJson.simps renderJson_obj)
qed simp_all

lemma toJson_ofJson: "isJSON v \<Longrightarrow> ofJson (toJson v) = v"
proof (induction v)
  case (JArr xs)
  have "map ofJson (map toJson xs) = xs"
    using JArr by (induction xs) auto
  then show ?case by simp
next
  case (JObj kvs)
  have ih: "\<forall>kv \<in> set kvs. ofJson (toJson (snd kv)) = snd kv"
    using JObj by (auto simp: snds.simps list_all_iff)
  have nu: "\<forall>kv \<in> set kvs. snd kv \<noteq> JUndefined"
    using JObj.prems by (auto simp: list_all_iff)
  have f: "filter (\<lambda>(k, v). v \<noteq> JUndefined) kvs = kvs"
    using nu by (induction kvs) auto
  have m: "map (map_prod id ofJson) (map (\<lambda>(k, v). (k, toJson v)) kvs) = kvs"
    using ih by (induction kvs) auto
  have d: "distinct (map fst ([] @ kvs))"
    using JObj.prems by simp
  have "ofJson (toJson (JObj kvs))
          = JObj (foldl (\<lambda>acc (k, v). setField k v acc) []
                    (map (map_prod id ofJson) (map (\<lambda>(k, v). (k, toJson v)) kvs)))"
    by (simp only: toJson.simps ofJson.simps f)
  then show ?case
    using foldl_setField_distinct [OF d] by (simp only: m) simp
qed simp_all

text \<open>The round trip: reading the text written for a value gives the value back.\<close>

lemma JSON_parse_stringify: "isJSON v \<Longrightarrow> JSON_parse (JSON_stringify v) = Some v"
proof -
  assume v: "isJSON v"
  then have "v \<noteq> JUndefined" by auto
  then show ?thesis
    by (simp add: JSON_parse_def JSON_stringify_render parseJson_renderJson toJson_ofJson [OF v])
qed



lemma cacheEntry_isJSON: "isJSON v \<Longrightarrow> isJSON (cacheEntry v t)"
  by (simp add: cacheEntry_def)

subsection \<open>Candidate generator\<close>

lemma setInsertAll_distinct: "distinct seen \<Longrightarrow> distinct (setInsertAll seen xs)"
  by (induction xs arbitrary: seen) auto

lemma setInsertAll_set: "set (setInsertAll seen xs) = set seen \<union> set xs"
  by (induction xs arbitrary: seen) auto

lemma setInsertAll_hd: "seen \<noteq> [] \<Longrightarrow> hd (setInsertAll seen xs) = hd seen"
  by (induction xs arbitrary: seen) auto

lemma firstIndex_in: "x \<in> set seen \<Longrightarrow> firstIndex (seen @ ys) x = firstIndex seen x"
  by (induction seen) auto

lemma firstIndex_less: "x \<in> set seen \<Longrightarrow> firstIndex seen x < length seen"
  by (induction seen) auto

lemma firstIndex_notin:
  "x \<notin> set seen \<Longrightarrow> firstIndex (seen @ ys) x = length seen + firstIndex ys x"
  by (induction seen) auto

text \<open>Dropping a later occurrence of a string already seen keeps every comparison of first positions.\<close>

lemma firstIndex_skip:
  assumes "a \<in> set seen"
  shows "(firstIndex (seen @ a # xs) x < firstIndex (seen @ a # xs) y)
       = (firstIndex (seen @ xs) x < firstIndex (seen @ xs) y)"
proof (cases "x \<in> set seen"; cases "y \<in> set seen")
  assume "x \<in> set seen" "y \<in> set seen"
  then show ?thesis by (simp add: firstIndex_in)
next
  assume "x \<in> set seen" "y \<notin> set seen"
  then show ?thesis using firstIndex_less [of x seen]
    by (simp add: firstIndex_in firstIndex_notin)
next
  assume "x \<notin> set seen" "y \<in> set seen"
  then show ?thesis using firstIndex_less [of y seen]
    by (simp add: firstIndex_in firstIndex_notin)
next
  assume xy: "x \<notin> set seen" "y \<notin> set seen"
  with assms have "x \<noteq> a" "y \<noteq> a" by auto
  with xy show ?thesis by (simp add: firstIndex_notin)
qed

lemma setInsertAll_order:
  "(firstIndex (setInsertAll seen xs) x < firstIndex (setInsertAll seen xs) y)
     = (firstIndex (seen @ xs) x < firstIndex (seen @ xs) y)"
proof (induction xs arbitrary: seen)
  case Nil
  then show ?case by simp
next
  case (Cons a xs)
  show ?case
  proof (cases "a \<in> set seen")
    case True
    then show ?thesis using Cons.IH [of seen] by (simp add: firstIndex_skip)
  next
    case False
    then show ?thesis using Cons.IH [of "seen @ [a]"] by simp
  qed
qed

text \<open>
  Claim C7. For every configuration and platform the candidate generator returns a
  list without duplicates that has exactly the URLs pushed, in the order in which
  each was first pushed (one URL comes before another in the result exactly when
  its first occurrence comes first in the pushed list), and when an override URL is
  configured (the variable is set and not empty) the first element is that override.
\<close>

theorem getPossibleServerUrls_dedup_first_seen:
  "distinct (getPossibleServerUrls W)
   \<and> set (getPossibleServerUrls W) = set (rawServerUrls W)
   \<and> (\<forall>x y. (firstIndex (getPossibleServerUrls W) x < firstIndex (getPossibleServerUrls W) y)
             = (firstIndex (rawServerUrls W) x < firstIndex (rawServerUrls W) y))
   \<and> (truthyStr (EXPO_PUBLIC_API_URL W)
        \<longrightarrow> hd (getPossibleServerUrls W) = the (EXPO_PUBLIC_API_URL W))"
proof -
  have o: "truthyStr (EXPO_PUBLIC_API_URL W)
        \<Longrightarrow> hd (getPossibleServerUrls W) = the (EXPO_PUBLIC_API_URL W)"
    by (simp add: getPossibleServerUrls_def newSet_def rawServerUrls_def setInsertAll_hd)
  show ?thesis
    using o setInsertAll_order [of "[]" "rawServerUrls W"]
    by (simp add: getPossibleServerUrls_def newSet_def setInsertAll_distinct setInsertAll_set)
qed

theorem getPossibleServerUrls_dedup_first_seen_witness:
  "truthyStr (EXPO_PUBLIC_API_URL overrideWorld)
   \<and> hd (getPossibleServerUrls overrideWorld) = ''http://10.1.2.3:3000/api''
   \<and> rawServerUrls overrideWorld =
        [''http://10.1.2.3:3000/api'', ''http://localhost:3000/api'',
         ''http://127.0.0.1:3000/api'', ''http://localhost:3000/api'',
         ''http://192.168.1.7:3000/api'']
   \<and> distinct (getPossibleServerUrls overrideWorld)"
  using getPossibleServerUrls_dedup_first_seen [of overrideWorld]
  by (simp add: overrideWorld_def offlineWorld_def truthyStr_def rawServerUrls_def devServerHost_def)

subsection \<open>Reachability probe\<close>

text \<open>
  Claim C6, as amended. For every candidate URL the probe sends one GET request to
  the health address and returns without throwing; its verdict is true exactly
  when the request is answered with a success status (200 to 299) and the body
  parses as JSON, whatever the JSON value is, and false on a network error, on
  any other status and on a body that does not parse.
\<close>

theorem isUrlReachable_verdict:
  "isUrlReachable W url s =
     (Inr (case net W (step s) (probeRequest url) of
             Rejected e \<Rightarrow> False
           | Resolved r \<Rightarrow> response_ok r \<and> bodyJson r \<noteq> None),
      tick (s\<lparr>httpLog := httpLog s @ [probeRequest url]\<rparr>))"
proof (cases "net W (step s) (probeRequest url)")
  case (Rejected e)
  then show ?thesis
    by (simp add: isUrlReachable_def isUrlReachable_try_def fetch_def probeRequest_def responseJson_def)
next
  case (Resolved r)
  then show ?thesis
    by (simp add: isUrlReachable_def isUrlReachable_try_def fetch_def probeRequest_def
        responseJson_def split: option.splits)
qed

text \<open>
  Claim C6 as stated fails: a body that parses as JSON but is not the health
  payload (here the empty array, with status 200) makes the probe answer true.
\<close>

theorem isUrlReachable_payload_counterexample:
  "fst (isUrlReachable jsonArrayWorld ''http://localhost:3000/api'' emptyState) = Inr True
   \<and> net jsonArrayWorld (step emptyState) (probeRequest ''http://localhost:3000/api'')
       = Resolved \<lparr>status = 200, bodyText = ''[]'', bodyJson = Some (JsArr [])\<rparr>
   \<and> responseJson \<lparr>status = 200, bodyText = ''[]'', bodyJson = Some (JsArr [])\<rparr> = Some (JArr [])
   \<and> \<not> isHealthPayload (JArr [])"
  by (simp add: isUrlReachable_def isUrlReachable_try_def fetch_def jsonArrayWorld_def
      offlineWorld_def emptyState_def response_ok_def responseJson_def isHealthPayload_def)

subsection \<open>Backend locator\<close>

lemma tryCachedUrl_log:
  "httpLog (snd (tryCachedUrl W s)) =
     httpLog s @ (if \<not> storageFails W (step s) \<and> truthyStr (storage s ''working_backend_url'')
                  then [probeRequest (the (storage s ''working_backend_url''))] else [])"
  by (simp add: tryCachedUrl_def getItem_def tick_def isUrlReachable_def isUrlReachable_try_def
      fetch_def probeRequest_def responseJson_def split: http_outcome.splits option.splits)

lemma tryCachedUrl_storage: "storage (snd (tryCachedUrl W s)) = storage s"
  by (simp add: tryCachedUrl_def getItem_def tick_def isUrlReachable_def isUrlReachable_try_def
      fetch_def responseJson_def split: http_outcome.splits option.splits)

text \<open>
  Claim C8. When the attempt with the cached URL does not return a reachable URL and
  the connectivity check then reports no network, \<^verbatim>\<open>discoverBackendUrl\<close> returns
  \<^verbatim>\<open>null\<close> at once: the state is the one left by the cached-URL attempt plus the
  connectivity check, so the only request the call may have sent is the probe of
  the cached URL; no candidate is generated or probed and the store is unchanged.
\<close>

theorem discoverBackendUrl_offline:
  assumes "fst (tryCachedUrl W s) = None"
    and "netInfo W (step (snd (tryCachedUrl W s))) = NetInfoState c"
    and "c \<noteq> Some True"
  shows "discoverBackendUrl W s = (Inr None, tick (snd (tryCachedUrl W s)))
     \<and> httpLog (snd (discoverBackendUrl W s)) =
         httpLog s @ (if \<not> storageFails W (step s) \<and> truthyStr (storage s ''working_backend_url'')
                      then [probeRequest (the (storage s ''working_backend_url''))] else [])
     \<and> storage (snd (discoverBackendUrl W s)) = storage s"
proof -
  obtain s1 where t: "tryCachedUrl W s = (None, s1)"
    using assms(1) by (cases "tryCachedUrl W s") auto
  have d: "discoverBackendUrl W s = (Inr None, tick s1)"
    using assms(2,3) t
    by (simp add: discoverBackendUrl_def discoverFromNetwork_def netInfoFetch_def)
  show ?thesis
    using d t tryCachedUrl_log [of W s] tryCachedUrl_storage [of W s] by (simp add: tick_def)
qed

theorem discoverBackendUrl_offline_witness:
  "fst (tryCachedUrl offlineWorld staleUrlState) = None
   \<and> netInfo offlineWorld (step (snd (tryCachedUrl offlineWorld staleUrlState)))
       = NetInfoState (Some False)
   \<and> fst (discoverBackendUrl offlineWorld staleUrlState) = Inr None
   \<and> httpLog (snd (discoverBackendUrl offlineWorld staleUrlState))
       = [probeRequest ''http://192.168.1.7:3000/api'']"
proof -
  have a: "fst (tryCachedUrl offlineWorld staleUrlState) = None"
    by (simp add: tryCachedUrl_def getItem_def tick_def isUrlReachable_def isUrlReachable_try_def
        fetch_def offlineWorld_def staleUrlState_def emptyState_def truthyStr_def)
  have b: "netInfo offlineWorld (step (snd (tryCachedUrl offlineWorld staleUrlState)))
       = NetInfoState (Some False)"
    by (simp add: offlineWorld_def)
  have c: "Some False \<noteq> Some True" by simp
  note th = discoverBackendUrl_offline [OF a b c]
  have e1: "storageFails offlineWorld (step staleUrlState) = False"
    by (simp add: offlineWorld_def)
  have e2: "storage staleUrlState ''working_backend_url'' = Some ''http://192.168.1.7:3000/api''"
    by (simp add: staleUrlState_def emptyState_def)
  have e3: "httpLog staleUrlState = []"
    by (simp add: staleUrlState_def emptyState_def)
  have r1: "fst (discoverBackendUrl offlineWorld staleUrlState) = Inr None"
    using conjunct1 [OF th] by simp
  have r2: "httpLog (snd (discoverBackendUrl offlineWorld staleUrlState))
       = [probeRequest ''http://192.168.1.7:3000/api'']"
    using conjunct1 [OF conjunct2 [OF th]] by (simp add: e1 e2 e3 truthyStr_def)
  show ?thesis
    using a b r1 r2 by simp
qed

subsection \<open>Facts about the building blocks\<close>

lemma ENABLE_API_CACHE_always: "ENABLE_API_CACHE W"
  by (simp add: ENABLE_API_CACHE_def)

lemma map_of_setField: "map_of (setField k v kvs) k = Some v"
  by (induction kvs) auto

lemma spreadWithFlag_flag: "getProp (spreadWithFlag v b) ''isAIGenerated'' = Inr (JBool b)"
  by (simp add: spreadWithFlag_def map_of_setField)

text \<open>The index drawn is below the count, also after the rounding of the product.\<close>

lemma bitLength_bounds: "n \<noteq> 0 \<Longrightarrow> 2 ^ (bitLength n - 1) \<le> n \<and> n < 2 ^ bitLength n"
proof (induction n rule: bitLength.induct)
  case (1 n)
  show ?case
  proof (cases "n div 2 = 0")
    case True
    then have n1: "n = Suc 0" using 1(2) by auto
    have "bitLength (Suc 0) = Suc 0"
      by (simp add: bitLength.simps [of "Suc 0"] bitLength.simps [of 0])
    then show ?thesis using n1 by simp
  next
    case False
    then have ih: "2 ^ (bitLength (n div 2) - 1) \<le> n div 2" "n div 2 < 2 ^ bitLength (n div 2)"
      using 1 by auto
    have pos: "0 < bitLength (n div 2)"
      using False by (simp add: bitLength.simps [of "n div 2"])
    have b: "bitLength n = Suc (bitLength (n div 2))"
      using 1(2) by (simp add: bitLength.simps [of n])
    have e: "(2::nat) ^ (bitLength n - 1) = 2 * 2 ^ (bitLength (n div 2) - 1)"
      using pos b by (cases "bitLength (n div 2)") auto
    have d: "2 * (n div 2) \<le> n" by simp
    have "2 * 2 ^ (bitLength (n div 2) - 1) \<le> 2 * (n div 2)"
      using ih(1) by simp
    then have lo: "2 ^ (bitLength n - 1) \<le> n"
      using e d by linarith
    have hi: "n < 2 ^ bitLength n"
      using ih(2) b by auto
    show ?thesis using lo hi by simp
  qed
qed

lemma roundToDouble_less:
  assumes "0 < k" and "n \<le> k * 2 ^ 53 - k"
  shows "roundToDouble n < k * 2 ^ 53"
proof (cases "bitLength n \<le> 53")
  case True
  have "k \<le> k * 2 ^ 53" by simp
  then have "n < k * 2 ^ 53" using assms by linarith
  then show ?thesis using True by (simp add: roundToDouble_def)
next
  case False
  define sh where "sh = bitLength n - 53"
  define P where "P = (2::nat) ^ sh"
  define q where "q = n div P"
  define r where "r = n mod P"
  have sh: "0 < sh" "bitLength n = 53 + sh" using False by (simp_all add: sh_def)
  have "bitLength 0 = 0" by (simp add: bitLength.simps [of 0])
  then have n0: "n \<noteq> 0" using False by (cases "n = 0") auto
  have kk: "k \<le> k * 2 ^ 53" by simp
  have nlt: "n < k * 2 ^ 53" using assms kk by linarith
  have lo: "2 ^ (52 + sh) \<le> n"
    using bitLength_bounds [OF n0] sh(2) by simp
  have e: "52 + sh = (sh - 1) + 53" using sh(1) by arith
  have split: "(2::nat) ^ (52 + sh) = 2 ^ (sh - 1) * 2 ^ 53"
    unfolding e by (rule power_add)
  have "2 ^ (sh - 1) * 2 ^ 53 < k * (2::nat) ^ 53"
    using lo nlt split by linarith
  then have half: "2 ^ (sh - 1) < k" by simp
  have P2: "P = 2 * 2 ^ (sh - 1)"
    using sh(1) by (cases sh) (simp_all add: P_def)
  have n: "n = q * P + r" by (simp add: q_def r_def)
  have rd: "roundToDouble n = (if P < 2 * r \<or> (2 * r = P \<and> odd q) then q + 1 else q) * P"
    using False by (simp add: roundToDouble_def Let_def sh_def P_def q_def r_def)
  show ?thesis
  proof (cases "P < 2 * r \<or> (2 * r = P \<and> odd q)")
    case True
    then have "P \<le> 2 * r" by auto
    then have "P - r \<le> 2 ^ (sh - 1)" using P2 by simp
    then have pr: "P - r < k" using half by simp
    have rP: "r < P" by (simp add: r_def P_def)
    have "roundToDouble n = q * P + P" using rd True by simp
    also have "\<dots> = n + (P - r)" using n rP by simp
    also have "\<dots> < k * 2 ^ 53" using assms(2) pr kk by linarith
    finally show ?thesis .
  next
    case False
    then have "roundToDouble n = q * P" unfolding rd by (simp only: if_False)
    also have "\<dots> \<le> n" using n by simp
    finally show ?thesis using nlt by simp
  qed
qed

lemma floorRandomTimes_less: "0 < k \<Longrightarrow> floorRandomTimes k u < k"
proof -
  assume k: "0 < k"
  have "u mod 2 ^ 53 \<le> 2 ^ 53 - (1::nat)" by simp
  then have "(u mod 2 ^ 53) * k \<le> (2 ^ 53 - 1) * k" by (rule mult_le_mono1)
  also have "\<dots> = k * 2 ^ 53 - k" by (simp add: algebra_simps)
  finally have "roundToDouble ((u mod 2 ^ 53) * k) < k * 2 ^ 53"
    using roundToDouble_less [OF k] by blast
  then show ?thesis
    unfolding floorRandomTimes_def by (simp add: less_mult_imp_div_less)
qed

lemma floorRandomTimes_zero: "floorRandomTimes k 0 = 0"
  by (simp add: floorRandomTimes_def roundToDouble_def bitLength.simps [of 0])

subsection \<open>Without connectivity the remote call fails\<close>

lemma isUrlReachable_result:
  "isUrlReachable W url s =
     (Inr (case net W (step s) (probeRequest url) of
             Rejected e \<Rightarrow> False
           | Resolved r \<Rightarrow> response_ok r \<and> bodyJson r \<noteq> None),
      tick (s\<lparr>httpLog := httpLog s @ [probeRequest url]\<rparr>))"
  by (simp add: isUrlReachable_def isUrlReachable_try_def fetch_def probeRequest_def
      responseJson_def split: http_outcome.splits option.splits)

lemma isUrlReachable_noConnectivity:
  assumes "noConnectivity W"
  shows "fst (isUrlReachable W url s) = Inr False"
proof -
  obtain e where "net W (step s) (probeRequest url) = Rejected e"
    using assms unfolding noConnectivity_def by blast
  then show ?thesis by (simp add: isUrlReachable_result)
qed

lemma probeAll_noConnectivity:
  assumes "noConnectivity W"
  shows "fst (probeAll W urls s) = Inr None"
proof (induction urls arbitrary: s)
  case Nil
  then show ?case by simp
next
  case (Cons url urls)
  obtain s1 where r: "isUrlReachable W url s = (Inr False, s1)"
    using isUrlReachable_noConnectivity [OF assms, of url s]
    by (cases "isUrlReachable W url s") auto
  show ?case using Cons.IH [of s1] by (simp add: r)
qed

lemma tryCachedUrl_noConnectivity:
  assumes "noConnectivity W"
  shows "fst (tryCachedUrl W s) = None"
proof (cases "getItem W ''working_backend_url'' s")
  case (Pair r s1)
  show ?thesis
  proof (cases r)
    case (Inl e)
    then show ?thesis using Pair by (simp add: tryCachedUrl_def)
  next
    case (Inr cachedUrl)
    obtain s2 where "isUrlReachable W (the cachedUrl) s1 = (Inr False, s2)"
      using isUrlReachable_noConnectivity [OF assms, of "the cachedUrl" s1]
      by (cases "isUrlReachable W (the cachedUrl) s1") auto
    then show ?thesis using Pair Inr by (simp add: tryCachedUrl_def)
  qed
qed

lemma discoverBackendUrl_noConnectivity:
  assumes "noConnectivity W"
  shows "fst (discoverBackendUrl W s) \<noteq> Inr (Some u)"
proof -
  obtain s1 where t: "tryCachedUrl W s = (None, s1)"
    using tryCachedUrl_noConnectivity [OF assms, of s] by (cases "tryCachedUrl W s") auto
  show ?thesis
    using probeAll_noConnectivity [OF assms]
    by (simp add: discoverBackendUrl_def t discoverFromNetwork_def netInfoFetch_def
        split: netinfo_outcome.splits)
qed

lemma callRemote_noConnectivity:
  assumes "noConnectivity W"
  shows "\<exists>e. fst (callRemote W endpoint method body key s) = Inl e"
proof (cases "ensureBackendUrl W s")
  case (Pair r s1)
  show ?thesis
  proof (cases r)
    case (Inl e)
    then show ?thesis using Pair by (simp add: callRemote_def)
  next
    case (Inr u)
    have tr: "truthyStr (discoveredBackendUrl s1)"
      using Pair Inr discoverBackendUrl_noConnectivity [OF assms, of s]
      by (auto simp: ensureBackendUrl_def split: if_splits prod.splits sum.splits)
    obtain e where "net W (step s1)
        (apiRequest method body (buildApiUrl (the (discoveredBackendUrl s1)) endpoint)) = Rejected e"
      using assms unfolding noConnectivity_def by blast
    then show ?thesis
      using Pair Inr tr
      by (simp add: callRemote_def getApiUrl_def fetch_def truthyStr_def)
  qed
qed

subsection \<open>Achievement badge\<close>

lemma generateAchievementBadge_fallback:
  assumes "generateAchievementBadge_try W a m s = (Inl e, s1)"
    and "fallbackGenerateAchievementBadge a m = Inr b"
  shows "generateAchievementBadge W a m s = (Inr (spreadWithFlag b False), s1)"
  using assms by (simp add: generateAchievementBadge_def)

lemma firstQuest_table_entry:
  "fallbackGenerateAchievementBadge (JStr ''First Quest'') (JNum 1) =
     Inr (Own (JObj [(''badgeName'', JStr ''Brave First Step''),
           (''badgeDescription'', JStr ''You completed your first quest and began your adventure!''),
           (''iconType'', JStr ''boot'')]))"
  by (simp add: fallbackGenerateAchievementBadge_def lookupLiteral_def defaultBadges_def badge_def)

lemma generateAchievementBadge_offline_firstQuest:
  assumes "noConnectivity W"
    and "\<forall>d. fst (cacheRead_try W (cacheKey ''achievement-badge''
            (JObj [(''achievementType'', JStr ''First Quest''), (''milestone'', JNum 1)])) s)
          \<noteq> Inr (Some d)"
  shows "(\<exists>e. fst (generateAchievementBadge_try W (JStr ''First Quest'') (JNum 1) s) = Inl e)
     \<and> fst (generateAchievementBadge W (JStr ''First Quest'') (JNum 1) s) =
           Inr (JObj [(''badgeName'', JStr ''Brave First Step''),
                 (''badgeDescription'', JStr ''You completed your first quest and began your adventure!''),
                 (''iconType'', JStr ''boot''),
                 (''isAIGenerated'', JBool False)])"
proof -
  let ?body = "JObj [(''achievementType'', JStr ''First Quest''), (''milestone'', JNum 1)]"
  have "\<exists>e. fst (callApi W ''achievement-badge'' ''POST'' ?body s) = Inl e"
    using assms(2) callRemote_noConnectivity [OF assms(1)]
    by (auto simp: callApi_def Let_def split: prod.splits sum.splits option.splits)
  then have f: "\<exists>e. fst (generateAchievementBadge_try W (JStr ''First Quest'') (JNum 1) s) = Inl e"
    by (auto simp: generateAchievementBadge_try_def split: prod.splits sum.splits)
  then obtain e s1 where "generateAchievementBadge_try W (JStr ''First Quest'') (JNum 1) s = (Inl e, s1)"
    by (metis prod.collapse)
  then have "fst (generateAchievementBadge W (JStr ''First Quest'') (JNum 1) s) =
           Inr (JObj [(''badgeName'', JStr ''Brave First Step''),
                 (''badgeDescription'', JStr ''You completed your first quest and began your adventure!''),
                 (''iconType'', JStr ''boot''),
                 (''isAIGenerated'', JBool False)])"
    by (simp add: generateAchievementBadge_fallback [OF _ firstQuest_table_entry] spreadWithFlag_def)
  then show ?thesis
    using f by blast
qed

text \<open>
  Claim C9, as amended. For the achievement type "First Quest" with milestone 1,
  without remote connectivity (every request is rejected) and with no unexpired
  cache entry answering the request, the fallback generator's badge is exactly the
  table entry (badgeName "Brave First Step", badgeDescription "You completed your
  first quest and began your adventure!", iconType "boot"), the remote attempt
  fails, and the achievement-badge operation returns that badge, marked
  \<^verbatim>\<open>isAIGenerated: false\<close>.
\<close>

theorem firstQuest_fallback_badge:
  assumes "noConnectivity W"
    and "\<forall>d. fst (cacheRead_try W (cacheKey ''achievement-badge''
            (JObj [(''achievementType'', JStr ''First Quest''), (''milestone'', JNum 1)])) s)
          \<noteq> Inr (Some d)"
  shows "fallbackGenerateAchievementBadge (JStr ''First Quest'') (JNum 1) =
           Inr (Own (JObj [(''badgeName'', JStr ''Brave First Step''),
                 (''badgeDescription'', JStr ''You completed your first quest and began your adventure!''),
                 (''iconType'', JStr ''boot'')]))
     \<and> (\<exists>e. fst (generateAchievementBadge_try W (JStr ''First Quest'') (JNum 1) s) = Inl e)
     \<and> fst (generateAchievementBadge W (JStr ''First Quest'') (JNum 1) s) =
           Inr (JObj [(''badgeName'', JStr ''Brave First Step''),
                 (''badgeDescription'', JStr ''You completed your first quest and began your adventure!''),
                 (''iconType'', JStr ''boot''),
                 (''isAIGenerated'', JBool False)])"
  using generateAchievementBadge_offline_firstQuest [OF assms] firstQuest_table_entry by blast

theorem firstQuest_fallback_badge_witness:
  "noConnectivity offlineWorld
   \<and> fst (cacheRead_try offlineWorld (cacheKey ''achievement-badge''
            (JObj [(''achievementType'', JStr ''First Quest''), (''milestone'', JNum 1)])) emptyState)
       = Inr None
   \<and> fst (generateAchievementBadge offlineWorld (JStr ''First Quest'') (JNum 1) emptyState) =
           Inr (JObj [(''badgeName'', JStr ''Brave First Step''),
                 (''badgeDescription'', JStr ''You completed your first quest and began your adventure!''),
                 (''iconType'', JStr ''boot''),
                 (''isAIGenerated'', JBool False)])"
proof -
  have a: "noConnectivity offlineWorld"
    by (simp add: noConnectivity_def offlineWorld_def)
  have r: "fst (cacheRead_try offlineWorld (cacheKey ''achievement-badge''
            (JObj [(''achievementType'', JStr ''First Quest''), (''milestone'', JNum 1)])) emptyState)
       = Inr None"
    by (simp add: cacheRead_try_def getItem_def emptyState_def offlineWorld_def truthyStr_def)
  have b: "\<forall>d. fst (cacheRead_try offlineWorld (cacheKey ''achievement-badge''
            (JObj [(''achievementType'', JStr ''First Quest''), (''milestone'', JNum 1)])) emptyState)
          \<noteq> Inr (Some d)"
    by (simp add: r)
  show ?thesis
    using a r firstQuest_fallback_badge [OF a b] by simp
qed

subsection \<open>Quest fallback\<close>

lemma startsWith_append: "startsWith (k @ b) k"
  by (induction k) auto

lemma includesStr_prefix: "includesStr (k @ b) k"
  using startsWith_append [of k b] by (cases "k @ b") auto

lemma includesStr_append: "includesStr (a @ k @ b) k"
proof (induction a)
  case Nil
  then show ?case by (simp add: includesStr_prefix)
next
  case (Cons c a)
  then show ?case by simp
qed

lemma includesStr_suffix: "includesStr (a @ k) k"
  using includesStr_append [of a k "[]"] by simp

lemma questTitleTemplates_include:
  assumes "i < 5"
  shows "includesStr (questTitleTemplates theme t ! i) t"
proof -
  have "i = 0 \<or> i = 1 \<or> i = 2 \<or> i = 3 \<or> i = 4" using assms by arith
  moreover have "includesStr (''The '' @ theme @ '' '' @ t) t"
    using includesStr_suffix [of "''The '' @ theme @ '' ''" t] by simp
  moreover have "includesStr (theme @ '' Mission: '' @ t) t"
    using includesStr_suffix [of "theme @ '' Mission: ''" t] by simp
  moreover have "includesStr (theme @ [CHR 0x27] @ ''s Call: '' @ t) t"
    using includesStr_suffix [of "theme @ [CHR 0x27] @ ''s Call: ''" t] by simp
  moreover have "includesStr (''The '' @ theme @ '' Seeker'' @ [CHR 0x27] @ ''s '' @ t) t"
    using includesStr_suffix [of "''The '' @ theme @ '' Seeker'' @ [CHR 0x27] @ ''s ''" t] by simp
  moreover have "includesStr (t @ '' of the '' @ theme @ '' Realm'') t"
    by (rule includesStr_prefix)
  ultimately show ?thesis
    by (auto simp: questTitleTemplates_def)
qed

lemma questTitleTemplates_length: "length (questTitleTemplates theme t) = 5"
  by (simp add: questTitleTemplates_def)

lemma fallbackGenerateQuestTitle_string:
  "\<exists>qt. fallbackGenerateQuestTitle u t (JStr c) = Inr qt \<and> includesStr qt (capitalize t)"
  by (simp add: fallbackGenerateQuestTitle_def Let_def questTitleTemplates_length
      questTitleTemplates_include floorRandomTimes_less)

text \<open>The base sentence the generator picks is the one the specification describes.\<close>

lemma base_sentence:
  "(case map_of categoryNarratives
           (case find (\<lambda>key. includesStr c key) (map fst categoryNarratives) of
              None \<Rightarrow> ''personal''
            | Some key \<Rightarrow> key) of
      None \<Rightarrow> ''undefined''
    | Some n \<Rightarrow> n) = categorySentence c"
  by (simp add: categoryNarratives_def categorySentence_def)

text \<open>What the lookup of the difficulty finds, by the text of the key.\<close>

lemma lookup_difficulty:
  assumes "toStringJS difficulty = Inr k"
  shows "lookupLiteral difficultyModifiers difficulty =
     Inr (if k = ''mini'' \<or> k = ''normal'' \<or> k = ''boss'' then Own (JStr (difficultySentence k))
          else if k \<in> set objectPrototypeKeys then Inherited k
          else Own JUndefined)"
  using assms
  by (auto simp: lookupLiteral_def difficultyModifiers_def difficultySentence_def objectPrototypeKeys_def)

lemma lookup_normal:
  "lookupLiteral difficultyModifiers (JStr ''normal'') = Inr (Own (JStr (difficultySentence ''normal'')))"
  by (simp add: lookup_difficulty [of "JStr ''normal''" "''normal''"])

lemma difficultySentence_nonempty: "difficultySentence k \<noteq> []"
  by (simp add: difficultySentence_def)

lemma fallbackGenerateQuestNarrative_sentences:
  assumes "toStringJS difficulty = Inr k"
  shows "fallbackGenerateQuestNarrative t (JStr c) difficulty =
     Inr (categorySentence (toLowerCase c) @ '' '' @
          (if k \<in> set objectPrototypeKeys then nativeText k else difficultySentence k))"
proof -
  have p: "k = ''mini'' \<or> k = ''normal'' \<or> k = ''boss'' \<Longrightarrow> k \<notin> set objectPrototypeKeys"
    by (auto simp: objectPrototypeKeys_def)
  have o: "\<not> (k = ''mini'' \<or> k = ''normal'' \<or> k = ''boss'')
        \<Longrightarrow> difficultySentence k = difficultySentence ''normal''"
    by (simp add: difficultySentence_def)
  show ?thesis
    using p o
    by (simp add: fallbackGenerateQuestNarrative_def Let_def base_sentence
        lookup_difficulty [OF assms] lookup_normal difficultySentence_nonempty)
qed

lemma transformTaskToQuest_catch_string:
  assumes "toStringJS d = Inr k"
  shows "\<exists>qt. transformTaskToQuest_catch W t (JStr c) d s =
      (Inr (JObj [(''questTitle'', JStr qt),
                  (''questNarrative'', JStr (categorySentence (toLowerCase c) @ '' '' @
                     (if k \<in> set objectPrototypeKeys then nativeText k else difficultySentence k))),
                  (''isAIGenerated'', JBool False)]), tick s)
     \<and> includesStr qt (capitalize t)"
proof -
  obtain qt where a: "fallbackGenerateQuestTitle (randomUnit W (step s)) t (JStr c) = Inr qt"
      "includesStr qt (capitalize t)"
    using fallbackGenerateQuestTitle_string by blast
  show ?thesis
    using a by (simp add: transformTaskToQuest_catch_def fallbackGenerateQuestNarrative_sentences [OF assms])
qed

text \<open>
  Claim C4, as amended. For every transform-task call with a string category and a
  difficulty that converts to a string, in which the remote attempt fails, the
  operation returns an object whose \<^verbatim>\<open>isAIGenerated\<close> is false and whose
  \<^verbatim>\<open>questTitle\<close> contains the capitalized task name; its
  \<^verbatim>\<open>questNarrative\<close> is the same for every task name and, unless the difficulty
  names a member inherited from \<^verbatim>\<open>Object.prototype\<close>, it is the sentence of the
  category, a blank and the sentence of the difficulty.
\<close>

theorem transformTaskToQuest_fallback_result:
  assumes "fst (transformTaskToQuest_try W taskTitle (JStr c) difficulty s) = Inl e"
    and "toStringJS difficulty = Inr k"
  shows "\<exists>qt qn s'. transformTaskToQuest W taskTitle (JStr c) difficulty s =
            (Inr (JObj [(''questTitle'', JStr qt), (''questNarrative'', JStr qn),
                        (''isAIGenerated'', JBool False)]), s')
          \<and> includesStr qt (capitalize taskTitle)
          \<and> (k \<notin> set objectPrototypeKeys
                \<longrightarrow> qn = categorySentence (toLowerCase c) @ '' '' @ difficultySentence k)
          \<and> fallbackGenerateQuestNarrative anyTitle (JStr c) difficulty = Inr qn"
proof -
  obtain s1 where t: "transformTaskToQuest_try W taskTitle (JStr c) difficulty s = (Inl e, s1)"
    using assms(1) by (cases "transformTaskToQuest_try W taskTitle (JStr c) difficulty s") auto
  let ?qn = "categorySentence (toLowerCase c) @ '' '' @
               (if k \<in> set objectPrototypeKeys then nativeText k else difficultySentence k)"
  obtain qt where c: "transformTaskToQuest_catch W taskTitle (JStr c) difficulty s1 =
      (Inr (JObj [(''questTitle'', JStr qt), (''questNarrative'', JStr ?qn),
                  (''isAIGenerated'', JBool False)]), tick s1)"
     "includesStr qt (capitalize taskTitle)"
    using transformTaskToQuest_catch_string [OF assms(2)] by blast
  have n: "fallbackGenerateQuestNarrative anyTitle (JStr c) difficulty = Inr ?qn"
    by (rule fallbackGenerateQuestNarrative_sentences [OF assms(2)])
  have r: "transformTaskToQuest W taskTitle (JStr c) difficulty s =
      (Inr (JObj [(''questTitle'', JStr qt), (''questNarrative'', JStr ?qn),
                  (''isAIGenerated'', JBool False)]), tick s1)"
    by (simp add: transformTaskToQuest_def t c(1))
  have q: "k \<notin> set objectPrototypeKeys
        \<longrightarrow> ?qn = categorySentence (toLowerCase c) @ '' '' @ difficultySentence k"
    by simp
  show ?thesis
    using r c(2) q n by blast
qed

lemma offline_transform_try:
  "fst (transformTaskToQuest_try offlineWorld (JStr ''laundry'') (JStr ''home'') (JStr ''mini'') knownUrlState)
     = Inl (TypeError ''Network request failed'')"
  by (simp add: transformTaskToQuest_try_def USE_BACKEND_GENERATION_def callApi_def
      ENABLE_API_CACHE_def cacheRead_try_def getItem_def callRemote_def ensureBackendUrl_def
      getApiUrl_def buildApiUrl_def endsWith_def apiRequest_def fetch_def tick_def truthyStr_def
      offlineWorld_def knownUrlState_def emptyState_def Let_def)

lemma home_mini_narrative:
  "categorySentence (toLowerCase ''home'') @ '' '' @ difficultySentence ''mini''
     = ''The village needs your attention. Restore order to this area to improve the prosperity of your domain. This is but a small step in your journey, yet important nonetheless.''"
  by (simp add: categorySentence_def difficultySentence_def toLowerCase_def toLowerChar_def)

theorem transformTaskToQuest_fallback_result_witness:
  "fst (transformTaskToQuest_try offlineWorld (JStr ''laundry'') (JStr ''home'') (JStr ''mini'') knownUrlState)
     = Inl (TypeError ''Network request failed'')
   \<and> toStringJS (JStr ''mini'') = Inr ''mini''
   \<and> ''mini'' \<notin> set objectPrototypeKeys
   \<and> (\<exists>qt s'. transformTaskToQuest offlineWorld (JStr ''laundry'') (JStr ''home'') (JStr ''mini'') knownUrlState =
            (Inr (JObj [(''questTitle'', JStr qt),
                        (''questNarrative'', JStr ''The village needs your attention. Restore order to this area to improve the prosperity of your domain. This is but a small step in your journey, yet important nonetheless.''),
                        (''isAIGenerated'', JBool False)]), s')
          \<and> includesStr qt ''Laundry'')"
proof -
  have k: "toStringJS (JStr ''mini'') = Inr ''mini''" by simp
  have p: "''mini'' \<notin> set objectPrototypeKeys" by (simp add: objectPrototypeKeys_def)
  have cap: "capitalize (JStr ''laundry'') = ''Laundry''" by (simp add: toUpperChar_def)
  obtain qt qn s' where r:
    "transformTaskToQuest offlineWorld (JStr ''laundry'') (JStr ''home'') (JStr ''mini'') knownUrlState =
            (Inr (JObj [(''questTitle'', JStr qt), (''questNarrative'', JStr qn),
                        (''isAIGenerated'', JBool False)]), s')"
    "includesStr qt (capitalize (JStr ''laundry''))"
    "''mini'' \<notin> set objectPrototypeKeys
       \<longrightarrow> qn = categorySentence (toLowerCase ''home'') @ '' '' @ difficultySentence ''mini''"
    using transformTaskToQuest_fallback_result [OF offline_transform_try k] by blast
  have "qn = ''The village needs your attention. Restore order to this area to improve the prosperity of your domain. This is but a small step in your journey, yet important nonetheless.''"
    using r(3) p home_mini_narrative by simp
  then show ?thesis
    using offline_transform_try k p r(1,2) cap by auto
qed

text \<open>
  Claim C4 as stated fails: with the task "laundry" (category "home", difficulty
  "mini") and a network error on the remote call, the narrative returned contains
  neither "laundry" nor "Laundry"; only the title carries the task name.
\<close>

theorem transformTaskToQuest_narrative_counterexample:
  "fst (transformTaskToQuest_try offlineWorld (JStr ''laundry'') (JStr ''home'') (JStr ''mini'') knownUrlState)
     = Inl (TypeError ''Network request failed'')
   \<and> fst (transformTaskToQuest offlineWorld (JStr ''laundry'') (JStr ''home'') (JStr ''mini'') knownUrlState)
     = Inr (JObj [(''questTitle'', JStr ''The Village Laundry''),
                  (''questNarrative'', JStr ''The village needs your attention. Restore order to this area to improve the prosperity of your domain. This is but a small step in your journey, yet important nonetheless.''),
                  (''isAIGenerated'', JBool False)])
   \<and> \<not> includesStr ''The village needs your attention. Restore order to this area to improve the prosperity of your domain. This is but a small step in your journey, yet important nonetheless.'' ''laundry''
   \<and> \<not> includesStr ''The village needs your attention. Restore order to this area to improve the prosperity of your domain. This is but a small step in your journey, yet important nonetheless.'' ''Laundry''"
proof -
  obtain s1 where t: "transformTaskToQuest_try offlineWorld (JStr ''laundry'') (JStr ''home'') (JStr ''mini'') knownUrlState
     = (Inl (TypeError ''Network request failed''), s1)"
    using offline_transform_try
    by (cases "transformTaskToQuest_try offlineWorld (JStr ''laundry'') (JStr ''home'') (JStr ''mini'') knownUrlState") auto
  have ru: "randomUnit offlineWorld (step s1) = 0" by (simp add: offlineWorld_def)
  have title: "fallbackGenerateQuestTitle 0 (JStr ''laundry'') (JStr ''home'') = Inr ''The Village Laundry''"
    by (simp add: fallbackGenerateQuestTitle_def Let_def questTitleTemplates_def themeOf_def
        toLowerCase_def toLowerChar_def toUpperChar_def floorRandomTimes_zero)
  have narr: "fallbackGenerateQuestNarrative (JStr ''laundry'') (JStr ''home'') (JStr ''mini'') =
     Inr ''The village needs your attention. Restore order to this area to improve the prosperity of your domain. This is but a small step in your journey, yet important nonetheless.''"
    by (simp add: fallbackGenerateQuestNarrative_def Let_def categoryNarratives_def
        difficultyModifiers_def lookupLiteral_def toLowerCase_def toLowerChar_def)
  have r: "fst (transformTaskToQuest offlineWorld (JStr ''laundry'') (JStr ''home'') (JStr ''mini'') knownUrlState)
     = Inr (JObj [(''questTitle'', JStr ''The Village Laundry''),
                  (''questNarrative'', JStr ''The village needs your attention. Restore order to this area to improve the prosperity of your domain. This is but a small step in your journey, yet important nonetheless.''),
                  (''isAIGenerated'', JBool False)])"
    by (simp add: transformTaskToQuest_def t transformTaskToQuest_catch_def ru title narr)
  have n1: "\<not> includesStr ''The village needs your attention. Restore order to this area to improve the prosperity of your domain. This is but a small step in your journey, yet important nonetheless.'' ''laundry''"
    by simp
  have n2: "\<not> includesStr ''The village needs your attention. Restore order to this area to improve the prosperity of your domain. This is but a small step in your journey, yet important nonetheless.'' ''Laundry''"
    by simp
  show ?thesis using offline_transform_try r n1 n2 by blast
qed

subsection \<open>The gateway operations return, or throw\<close>

lemma disabledWorld_flag: "\<not> USE_BACKEND_GENERATION disabledWorld"
  by (simp add: USE_BACKEND_GENERATION_def disabledWorld_def offlineWorld_def)

text \<open>
  Claim C1 fails on the code: with remote generation disabled, a call of
  \<^verbatim>\<open>transformTaskToQuest\<close> without a category throws a TypeError to its caller,
  raised by \<^verbatim>\<open>category.toLowerCase()\<close> inside the \<^verbatim>\<open>catch\<close> handler.
\<close>

theorem transformTaskToQuest_absent_category_throws:
  "\<not> USE_BACKEND_GENERATION disabledWorld
   \<and> fst (transformTaskToQuest disabledWorld (JStr ''Write report'') JUndefined (JStr ''normal'') emptyState)
       = Inl (TypeError ''Cannot read property toLowerCase of undefined'')"
  by (simp add: disabledWorld_flag transformTaskToQuest_def transformTaskToQuest_try_def
      transformTaskToQuest_catch_def fallbackGenerateQuestTitle_def)

text \<open>
  The same for every category that is not a string. With a string category the
  operation returns for every difficulty that converts to a string; the
  motivational-message operation always returns; the achievement-badge operation
  returns for arguments that convert to strings and throws, out of its handler, for
  an achievement type that does not.
\<close>

lemma transformTaskToQuest_non_string_category_throws:
  assumes "fst (transformTaskToQuest_try W t c d s) = Inl e" and "\<forall>str. c \<noteq> JStr str"
  shows "\<exists>e'. fst (transformTaskToQuest W t c d s) = Inl e'"
proof -
  obtain s1 where t: "transformTaskToQuest_try W t c d s = (Inl e, s1)"
    using assms(1) by (cases "transformTaskToQuest_try W t c d s") auto
  have "\<exists>e'. toLowerCaseJS c = Inl e'"
    using assms(2) by (cases c) auto
  then show ?thesis
    by (auto simp: transformTaskToQuest_def t transformTaskToQuest_catch_def
        fallbackGenerateQuestTitle_def)
qed

lemma transformTaskToQuest_returns:
  assumes "toStringJS d = Inr k"
  shows "\<exists>r s'. transformTaskToQuest W t (JStr c) d s = (Inr r, s')"
proof (cases "transformTaskToQuest_try W t (JStr c) d s")
  case (Pair r s1)
  show ?thesis
  proof (cases r)
    case (Inl e)
    then show ?thesis
      using Pair transformTaskToQuest_catch_string [OF assms, of W t c s1]
      by (auto simp: transformTaskToQuest_def)
  next
    case (Inr v)
    then show ?thesis using Pair by (simp add: transformTaskToQuest_def)
  qed
qed

lemma generateMotivationalMessage_returns:
  "\<exists>r s'. generateMotivationalMessage W s = (Inr r, s')"
  by (cases "generateMotivationalMessage_try W s")
     (auto simp: generateMotivationalMessage_def split: sum.splits)

lemma fallbackGenerateAchievementBadge_convertible:
  assumes "toStringJS a = Inr ta" and "toStringJS m = Inr tm"
  shows "\<exists>b. fallbackGenerateAchievementBadge a m = Inr b"
  using assms by (simp add: fallbackGenerateAchievementBadge_def lookupLiteral_def)

lemma generateAchievementBadge_returns:
  assumes "toStringJS a = Inr ta" and "toStringJS m = Inr tm"
  shows "\<exists>r s'. generateAchievementBadge W a m s = (Inr r, s')"
proof -
  obtain b where "fallbackGenerateAchievementBadge a m = Inr b"
    using fallbackGenerateAchievementBadge_convertible [OF assms] by blast
  then show ?thesis
    by (cases "generateAchievementBadge_try W a m s")
       (auto simp: generateAchievementBadge_def split: sum.splits)
qed

lemma stubbornObject_conversion:
  "toStringJS stubbornObject = Inl (TypeError ''Cannot convert object to primitive value'')"
  by (simp add: stubbornObject_def)

lemma generateAchievementBadge_stubborn_throws:
  "fst (generateAchievementBadge W stubbornObject m s)
     = Inl (TypeError ''Cannot convert object to primitive value'')"
  by (simp add: generateAchievementBadge_def generateAchievementBadge_try_def
      fallbackGenerateAchievementBadge_def lookupLiteral_def stubbornObject_conversion)

lemma transformTaskToQuest_stubborn_difficulty_throws:
  assumes "fst (transformTaskToQuest_try W t (JStr c) stubbornObject s) = Inl e"
  shows "fst (transformTaskToQuest W t (JStr c) stubbornObject s)
     = Inl (TypeError ''Cannot convert object to primitive value'')"
proof -
  obtain s1 where t: "transformTaskToQuest_try W t (JStr c) stubbornObject s = (Inl e, s1)"
    using assms by (cases "transformTaskToQuest_try W t (JStr c) stubbornObject s") auto
  obtain qt where q: "fallbackGenerateQuestTitle (randomUnit W (step s1)) t (JStr c) = Inr qt"
    using fallbackGenerateQuestTitle_string by blast
  show ?thesis
    by (simp add: transformTaskToQuest_def t transformTaskToQuest_catch_def q
        fallbackGenerateQuestNarrative_def lookupLiteral_def stubbornObject_conversion Let_def)
qed

lemma fallbackGenerateMotivationalMessage_member:
  "fallbackGenerateMotivationalMessage u \<in> set motivationalMessages"
proof -
  have "length motivationalMessages = 10" by (simp add: motivationalMessages_def)
  then show ?thesis
    unfolding fallbackGenerateMotivationalMessage_def
    by (simp add: floorRandomTimes_less)
qed

subsection \<open>Remote generation disabled\<close>

text \<open>
  Claim C2, as amended. While remote generation is disabled, the transform-task
  operation (with a string category and a difficulty that converts to a string) and
  the achievement-badge operation (with an achievement type and a milestone that
  convert to strings) return a result whose flag \<^verbatim>\<open>isAIGenerated\<close> is false, the
  motivational-message operation returns one of the fixed fallback strings (a bare
  string, which carries no flag), and none of the three sends an HTTP request
  during the call.
\<close>

theorem disabled_gateway_is_local:
  assumes "\<not> USE_BACKEND_GENERATION W"
    and "toStringJS difficulty = Inr td"
    and "toStringJS achievementType = Inr ta"
    and "toStringJS milestone = Inr tm"
  shows "(\<exists>r s'. transformTaskToQuest W taskTitle (JStr c) difficulty s = (Inr r, s')
            \<and> getProp r ''isAIGenerated'' = Inr (JBool False)
            \<and> httpLog s' = httpLog s)
       \<and> (\<exists>r s'. generateAchievementBadge W achievementType milestone s = (Inr r, s')
            \<and> getProp r ''isAIGenerated'' = Inr (JBool False)
            \<and> httpLog s' = httpLog s)
       \<and> (\<exists>m s'. generateMotivationalMessage W s = (Inr (JStr m), s')
            \<and> m \<in> set motivationalMessages
            \<and> httpLog s' = httpLog s)"
proof -
  have t: "\<exists>e. transformTaskToQuest_try W taskTitle (JStr c) difficulty s = (Inl e, s)"
    using assms(1) by (cases "toStringJS taskTitle") (simp_all add: transformTaskToQuest_try_def)
  obtain qt qn where c: "transformTaskToQuest_catch W taskTitle (JStr c) difficulty s =
      (Inr (JObj [(''questTitle'', JStr qt), (''questNarrative'', JStr qn),
                  (''isAIGenerated'', JBool False)]), tick s)"
    using transformTaskToQuest_catch_string [OF assms(2)] by blast
  have A: "\<exists>r s'. transformTaskToQuest W taskTitle (JStr c) difficulty s = (Inr r, s')
            \<and> getProp r ''isAIGenerated'' = Inr (JBool False)
            \<and> httpLog s' = httpLog s"
    using t by (auto simp: transformTaskToQuest_def c tick_def)
  have g: "generateAchievementBadge_try W achievementType milestone s =
        (Inl (Error ''Using local generation based on .env configuration''), s)"
    using assms(1,3) by (simp add: generateAchievementBadge_try_def)
  obtain b where b: "fallbackGenerateAchievementBadge achievementType milestone = Inr b"
    using fallbackGenerateAchievementBadge_convertible [OF assms(3,4)] by blast
  have B: "\<exists>r s'. generateAchievementBadge W achievementType milestone s = (Inr r, s')
            \<and> getProp r ''isAIGenerated'' = Inr (JBool False)
            \<and> httpLog s' = httpLog s"
    by (simp add: generateAchievementBadge_fallback [OF g b] spreadWithFlag_flag)
  have C: "\<exists>m s'. generateMotivationalMessage W s = (Inr (JStr m), s')
            \<and> m \<in> set motivationalMessages
            \<and> httpLog s' = httpLog s"
    using assms(1)
    by (simp add: generateMotivationalMessage_def generateMotivationalMessage_try_def
        fallbackGenerateMotivationalMessage_member tick_def)
  show ?thesis using A B C by blast
qed

theorem disabled_gateway_is_local_witness:
  "\<not> USE_BACKEND_GENERATION disabledWorld
   \<and> toStringJS (JStr ''mini'') = Inr ''mini''
   \<and> toStringJS (JStr ''First Quest'') = Inr ''First Quest''
   \<and> toStringJS (JNum 1) = Inr ''1''
   \<and> (\<exists>r s'. transformTaskToQuest disabledWorld (JStr ''laundry'') (JStr ''home'') (JStr ''mini'') emptyState = (Inr r, s')
            \<and> getProp r ''isAIGenerated'' = Inr (JBool False)
            \<and> httpLog s' = [])
   \<and> (\<exists>r s'. generateAchievementBadge disabledWorld (JStr ''First Quest'') (JNum 1) emptyState = (Inr r, s')
            \<and> getProp r ''isAIGenerated'' = Inr (JBool False)
            \<and> httpLog s' = [])
   \<and> (\<exists>m s'. generateMotivationalMessage disabledWorld emptyState = (Inr (JStr m), s')
            \<and> m \<in> set motivationalMessages
            \<and> httpLog s' = [])"
proof -
  have e: "httpLog emptyState = []" by (simp add: emptyState_def)
  have k1: "toStringJS (JStr ''mini'') = Inr ''mini''" by simp
  have k2: "toStringJS (JStr ''First Quest'') = Inr ''First Quest''" by simp
  have k3: "toStringJS (JNum 1) = Inr ''1''" by (simp add: showInt_def digitsOf.simps)
  show ?thesis
    using disabledWorld_flag k1 k2 k3
      disabled_gateway_is_local [OF disabledWorld_flag k1 k2 k3, of "JStr ''laundry''" "''home''" emptyState]
    by (simp add: e)
qed

text \<open>
  Claim C2 as stated fails for the motivational-message operation: its result is a
  string, and reading the provenance flag from it gives \<^verbatim>\<open>undefined\<close>, not false.
\<close>

theorem motivationalMessage_no_flag_counterexample:
  "\<not> USE_BACKEND_GENERATION disabledWorld
   \<and> fst (generateMotivationalMessage disabledWorld emptyState)
       = Inr (JStr ''The path to greatness is paved with completed quests!'')
   \<and> getProp (JStr ''The path to greatness is paved with completed quests!'') ''isAIGenerated''
       = Inr JUndefined
   \<and> JUndefined \<noteq> JBool False"
  by (simp add: USE_BACKEND_GENERATION_def generateMotivationalMessage_def generateMotivationalMessage_try_def
      fallbackGenerateMotivationalMessage_def motivationalMessages_def floorRandomTimes_zero
      disabledWorld_def offlineWorld_def emptyState_def)

subsection \<open>Motivational messages and the cache\<close>

text \<open>
  The endpoint \<^verbatim>\<open>generateMotivationalMessage\<close> passes to \<^verbatim>\<open>callApi\<close> is never the
  string the two cache guards compare with, so neither guard excludes it.
\<close>

lemma unique_endpoint_not_excluded:
  "''motivational-message?random='' @ r \<noteq> ''motivational-message''"
  by simp

text \<open>
  Claim C5 fails on the code: with remote generation enabled and a backend that
  answers, one call of the motivational-message operation writes a cache entry
  under a key that was absent before, so the store is changed.
\<close>

theorem motivationalMessage_writes_cache:
  "storage knownUrlState ''taskflick_cache_motivational-message?random=0.5_'' = None
   \<and> fst (generateMotivationalMessage messageServerWorld knownUrlState) = Inr (JStr ''Onward!'')
   \<and> storage (snd (generateMotivationalMessage messageServerWorld knownUrlState))
        ''taskflick_cache_motivational-message?random=0.5_''
       = Some (JSON_stringify (cacheEntry (JObj [(''motivationalMessage'', JStr ''Onward!'')]) 1700000000003))"
  by (simp add: generateMotivationalMessage_def generateMotivationalMessage_try_def
      USE_BACKEND_GENERATION_def callApi_def ENABLE_API_CACHE_def cacheKey_def
      cacheRead_try_def getItem_def setItem_def dateNow_def callRemote_def ensureBackendUrl_def
      getApiUrl_def buildApiUrl_def endsWith_def apiRequest_def fetch_def tick_def truthyStr_def
      response_ok_def responseJson_def cacheWrite_def extractResponseData_def pickMessage_def
      messageServerWorld_def offlineWorld_def knownUrlState_def emptyState_def Let_def)

subsection \<open>What the locator and the remote call leave unchanged\<close>

lemma keepsCache_refl: "keepsCache s s"
  by (simp add: keepsCache_def)

lemma keepsCache_trans: "keepsCache s s1 \<Longrightarrow> keepsCache s1 s2 \<Longrightarrow> keepsCache s s2"
  by (auto simp: keepsCache_def)

lemma keepsCache_tick: "keepsCache s (tick s)"
  by (simp add: keepsCache_def tick_def)

lemma isUrlReachable_keeps: "keepsCache s (snd (isUrlReachable W url s))"
  by (simp add: isUrlReachable_result keepsCache_def tick_def)

lemma setItem_working_keeps: "keepsCache s (snd (setItem W ''working_backend_url'' v s))"
  by (simp add: setItem_def keepsCache_def tick_def)

lemma probeAll_keeps: "keepsCache s (snd (probeAll W urls s))"
proof (induction urls arbitrary: s)
  case Nil
  then show ?case by (simp add: keepsCache_refl)
next
  case (Cons url urls)
  obtain r s1 where r: "isUrlReachable W url s = (r, s1)"
    by (cases "isUrlReachable W url s")
  have k1: "keepsCache s s1" using isUrlReachable_keeps [of s W url] r by simp
  show ?case
  proof (cases r)
    case (Inl e)
    then show ?thesis using r k1 by simp
  next
    case (Inr b)
    show ?thesis
    proof (cases b)
      case True
      then show ?thesis
        using r Inr k1 setItem_working_keeps [of s1 W url] keepsCache_trans by auto
    next
      case False
      then show ?thesis
        using r Inr k1 Cons.IH [of s1] keepsCache_trans by auto
    qed
  qed
qed

lemma tryCachedUrl_keeps: "keepsCache s (snd (tryCachedUrl W s))"
  by (simp add: keepsCache_def tryCachedUrl_log tryCachedUrl_storage)

lemma discoverFromNetwork_keeps: "keepsCache s (snd (discoverFromNetwork W s))"
proof (cases "netInfo W (step s)")
  case (NetInfoRejected e)
  then show ?thesis
    by (simp add: discoverFromNetwork_def netInfoFetch_def keepsCache_tick)
next
  case (NetInfoState c)
  then show ?thesis
    using probeAll_keeps [of "tick s" W "getPossibleServerUrls W"] keepsCache_tick [of s]
      keepsCache_trans
    by (auto simp: discoverFromNetwork_def netInfoFetch_def)
qed

lemma discoverBackendUrl_keeps: "keepsCache s (snd (discoverBackendUrl W s))"
proof (cases "tryCachedUrl W s")
  case (Pair r s1)
  have k1: "keepsCache s s1" using tryCachedUrl_keeps [of s W] Pair by simp
  show ?thesis
  proof (cases r)
    case None
    then show ?thesis
      using Pair k1 discoverFromNetwork_keeps [of s1 W] keepsCache_trans
      by (auto simp: discoverBackendUrl_def)
  next
    case (Some u)
    then show ?thesis using Pair k1 by (simp add: discoverBackendUrl_def)
  qed
qed

lemma keepsCache_set_url: "keepsCache s s1 \<Longrightarrow> keepsCache s (s1\<lparr>discoveredBackendUrl := u\<rparr>)"
  by (simp add: keepsCache_def)

lemma ensureBackendUrl_keeps: "keepsCache s (snd (ensureBackendUrl W s))"
proof (cases "discoverBackendUrl W s")
  case (Pair r s1)
  have "keepsCache s s1" using discoverBackendUrl_keeps [of s W] Pair by simp
  then show ?thesis
    using Pair
    by (auto simp: ensureBackendUrl_def keepsCache_refl keepsCache_set_url split: sum.splits)
qed

lemma ensureBackendUrl_truthy:
  "ensureBackendUrl W s = (Inr u, s1) \<Longrightarrow> truthyStr (discoveredBackendUrl s1)"
  by (auto simp: ensureBackendUrl_def split: if_splits prod.splits sum.splits)


lemma cacheKey_not_working: "cacheKey endpoint body \<noteq> ''working_backend_url''"
  by (simp add: cacheKey_def)

lemma JSON_stringify_entry_nonempty: "JSON_stringify (cacheEntry d t) \<noteq> []"
  by (simp add: cacheEntry_def)

text \<open>What the cache write leaves behind: nothing, a failed write, or the entry.\<close>

lemma cacheWrite_cases:
  assumes "cacheWrite W endpoint key result s = (Inr u, s')"
  shows "s' = s \<or> s' = tick (tick s)
       \<or> (endpoint \<noteq> ''motivational-message''
          \<and> (\<exists>d. extractResponseData result = Inr d
             \<and> s' = tick (tick (s\<lparr>storage := (storage s)(key \<mapsto>
                         JSON_stringify (cacheEntry d (clock W (step s))))\<rparr>))))"
  using assms
  by (auto simp: cacheWrite_def dateNow_def setItem_def tick_def
      split: if_splits sum.splits)

lemma buildApiUrl_nonempty: "buildApiUrl base endpoint \<noteq> []"
  by (simp add: buildApiUrl_def Let_def)

lemma callRemote_InrE:
  assumes "callRemote W endpoint method body key s = (Inr v, s')"
  obtains s2 resp result where
    "ensureBackendUrl W s = (Inr (), s2)"
    "truthyStr (discoveredBackendUrl s2)"
    "net W (step s2) (apiRequest method body (buildApiUrl (the (discoveredBackendUrl s2)) endpoint)) = Resolved resp"
    "response_ok resp"
    "responseJson resp = Some result"
    "extractResponseData result = Inr v"
    "cacheWrite W endpoint key result
       (tick (s2\<lparr>httpLog := httpLog s2 @ [apiRequest method body (buildApiUrl (the (discoveredBackendUrl s2)) endpoint)]\<rparr>))
       = (Inr (), s')"
proof -
  obtain r s2 where e: "ensureBackendUrl W s = (r, s2)"
    by (cases "ensureBackendUrl W s")
  have r: "r = Inr ()"
    using assms e by (cases r) (auto simp: callRemote_def)
  have tr: "truthyStr (discoveredBackendUrl s2)"
    using e r ensureBackendUrl_truthy by blast
  let ?rq = "apiRequest method body (buildApiUrl (the (discoveredBackendUrl s2)) endpoint)"
  let ?s3 = "tick (s2\<lparr>httpLog := httpLog s2 @ [?rq]\<rparr>)"
  have g: "getApiUrl W endpoint (discoveredBackendUrl s2) s2
        = (Inr (Some (buildApiUrl (the (discoveredBackendUrl s2)) endpoint)), s2)"
    using tr by (simp add: getApiUrl_def)
  have f: "fetch W ?rq s2 = (net W (step s2) ?rq, ?s3)"
    by (simp add: fetch_def)
  have c: "callRemote W endpoint method body key s =
      (case net W (step s2) ?rq of
         Rejected e \<Rightarrow> (Inl e, ?s3)
       | Resolved response \<Rightarrow>
           if \<not> response_ok response
           then (Inl (Error (''API error: '' @ showInt (int (status response)) @ '' - ''
                               @ bodyText response)), ?s3)
           else (case responseJson response of
                   None \<Rightarrow> (Inl (SyntaxError ''JSON Parse error''), ?s3)
                 | Some result \<Rightarrow>
                     (case cacheWrite W endpoint key result ?s3 of
                        (Inl e, s4) \<Rightarrow> (Inl e, s4)
                      | (Inr u', s4) \<Rightarrow> (extractResponseData result, s4))))"
    by (simp add: callRemote_def e r g truthyStr_def buildApiUrl_nonempty f)
  obtain resp where n: "net W (step s2) ?rq = Resolved resp"
    using assms c by (cases "net W (step s2) ?rq") auto
  have ok: "response_ok resp"
    using assms c n by (auto split: if_splits)
  obtain result where b: "responseJson resp = Some result"
    using assms c n ok by (cases "responseJson resp") auto
  obtain w s4 where cw: "cacheWrite W endpoint key result ?s3 = (w, s4)"
    by (cases "cacheWrite W endpoint key result ?s3")
  have w: "w = Inr ()"
    using assms c n ok b cw by (cases w) auto
  have fin: "extractResponseData result = Inr v" "s4 = s'"
    using assms c n ok b cw w by auto
  show ?thesis
    using that [OF e [unfolded r] tr n ok b fin(1)] cw w fin(2) by simp
qed

lemma callRemote_log_grows:
  assumes "callRemote W endpoint method body key s = (Inr v, s')"
  shows "length (httpLog s) < length (httpLog s')"
proof -
  obtain s2 resp result where
    e: "ensureBackendUrl W s = (Inr (), s2)" and
    cw: "cacheWrite W endpoint key result
       (tick (s2\<lparr>httpLog := httpLog s2 @ [apiRequest method body (buildApiUrl (the (discoveredBackendUrl s2)) endpoint)]\<rparr>))
       = (Inr (), s')"
    using callRemote_InrE [OF assms] by metis
  have "length (httpLog s) \<le> length (httpLog s2)"
    using ensureBackendUrl_keeps [of s W] e by (simp add: keepsCache_def)
  moreover have "length (httpLog s') = Suc (length (httpLog s2))"
    using cacheWrite_cases [OF cw] by (auto simp: tick_def)
  ultimately show ?thesis by simp
qed

lemma cacheWrite_storage:
  "storage (snd (cacheWrite W endpoint key result s)) k = storage s k
   \<or> (k = key \<and> (\<exists>d t. storage (snd (cacheWrite W endpoint key result s)) k
                          = Some (JSON_stringify (cacheEntry d t))))"
  by (auto simp: cacheWrite_def dateNow_def setItem_def tick_def split: sum.splits)

subsection \<open>Response cache\<close>

text \<open>A call that finds a well-formed entry under its key.\<close>

lemma callApi_with_entry:
  assumes "USE_BACKEND_GENERATION W" and "endpoint \<noteq> ''motivational-message''"
    and "\<not> storageFails W (step s)"
    and "storage s (cacheKey endpoint body) = Some txt" and "txt \<noteq> []"
    and "JSON_parse txt = Some (cacheEntry d t)"
  shows "callApi W endpoint method body s =
           (if clock W (Suc (step s)) - t < CACHE_EXPIRY W then (Inr d, tick (tick s))
            else callRemote W endpoint method body (cacheKey endpoint body) (tick (tick s)))"
proof -
  have "cacheRead_try W (cacheKey endpoint body) s =
          (if clock W (Suc (step s)) - t < CACHE_EXPIRY W then Inr (Some d) else Inr None,
           tick (tick s))"
    using assms(3-6)
    by (simp add: cacheRead_try_def getItem_def truthyStr_def cacheEntry_def dateNow_def tick_def)
  then show ?thesis
    using assms(1,2) by (simp add: callApi_def ENABLE_API_CACHE_always)
qed

lemma callRemote_after_ensure:
  assumes "ensureBackendUrl W s = (Inr u, s2)"
  shows "callRemote W endpoint method body key s =
      (let rq = apiRequest method body (buildApiUrl (the (discoveredBackendUrl s2)) endpoint);
           s3 = tick (s2\<lparr>httpLog := httpLog s2 @ [rq]\<rparr>)
       in case net W (step s2) rq of
         Rejected e \<Rightarrow> (Inl e, s3)
       | Resolved response \<Rightarrow>
           if \<not> response_ok response
           then (Inl (Error (''API error: '' @ showInt (int (status response)) @ '' - ''
                               @ bodyText response)), s3)
           else (case responseJson response of
                   None \<Rightarrow> (Inl (SyntaxError ''JSON Parse error''), s3)
                 | Some result \<Rightarrow>
                     (case cacheWrite W endpoint key result s3 of
                        (Inl e, s4) \<Rightarrow> (Inl e, s4)
                      | (Inr u', s4) \<Rightarrow> (extractResponseData result, s4))))"
proof -
  have tr: "truthyStr (discoveredBackendUrl s2)"
    using assms ensureBackendUrl_truthy by blast
  have g: "getApiUrl W endpoint (discoveredBackendUrl s2) s2
        = (Inr (Some (buildApiUrl (the (discoveredBackendUrl s2)) endpoint)), s2)"
    using tr by (simp add: getApiUrl_def)
  show ?thesis
    by (simp add: callRemote_def assms g truthyStr_def buildApiUrl_nonempty fetch_def Let_def)
qed

lemma callRemote_storage:
  assumes "key \<noteq> ''working_backend_url''"
  shows "storage (snd (callRemote W endpoint method body key s)) key = storage s key
       \<or> (\<exists>d t. storage (snd (callRemote W endpoint method body key s)) key
                  = Some (JSON_stringify (cacheEntry d t)))"
proof -
  obtain r s1 where e: "ensureBackendUrl W s = (r, s1)"
    by (cases "ensureBackendUrl W s")
  have k1: "storage s1 key = storage s key"
    using ensureBackendUrl_keeps [of s W] e assms by (simp add: keepsCache_def)
  show ?thesis
  proof (cases r)
    case (Inl err)
    then show ?thesis using e k1 by (simp add: callRemote_def)
  next
    case (Inr u)
    let ?rq = "apiRequest method body (buildApiUrl (the (discoveredBackendUrl s1)) endpoint)"
    let ?s3 = "tick (s1\<lparr>httpLog := httpLog s1 @ [?rq]\<rparr>)"
    have k3: "storage ?s3 key = storage s key"
      using k1 by (simp add: tick_def)
    have cw: "\<And>result. storage (snd (cacheWrite W endpoint key result ?s3)) key = storage s key
        \<or> (\<exists>d t. storage (snd (cacheWrite W endpoint key result ?s3)) key
                  = Some (JSON_stringify (cacheEntry d t)))"
      using cacheWrite_storage [of W endpoint key _ ?s3 key] k3 by auto
    show ?thesis
    proof (cases "net W (step s1) ?rq")
      case (Rejected x)
      then show ?thesis
        using k3 by (simp add: callRemote_after_ensure [OF e [unfolded Inr]] Let_def)
    next
      case (Resolved resp)
      show ?thesis
      proof (cases "responseJson resp")
        case None
        then show ?thesis
          using k3 Resolved by (simp add: callRemote_after_ensure [OF e [unfolded Inr]] Let_def)
      next
        case (Some result)
        show ?thesis
          using k3 Resolved Some cw [of result]
          by (cases "cacheWrite W endpoint key result ?s3")
             (auto simp: callRemote_after_ensure [OF e [unfolded Inr]] Let_def split: sum.splits)
      qed
    qed
  qed
qed

text \<open>
  Claim C3. For a cacheable call (remote generation on, endpoint other than
  motivational-message; the cache flag is always on) that finds under its key a
  readable entry with data \<open>d\<close> and timestamp \<open>t\<close>: the call returns \<open>d\<close>
  after the read and the clock reading alone when \<open>now - t < ttl\<close>, and otherwise
  continues with the remote part of \<^verbatim>\<open>callApi\<close>; a result comes back without any
  HTTP request exactly when \<open>now - t < ttl\<close>; after the call the key still holds
  the old text or a newly written entry, never nothing; and the ttl is 24 hours
  when none is configured.
\<close>

theorem cache_hit_iff_fresh:
  assumes "USE_BACKEND_GENERATION W" and "endpoint \<noteq> ''motivational-message''"
    and "\<not> storageFails W (step s)"
    and "storage s (cacheKey endpoint body) = Some txt" and "txt \<noteq> []"
    and "JSON_parse txt = Some (cacheEntry d t)"
  shows "callApi W endpoint method body s =
           (if clock W (Suc (step s)) - t < CACHE_EXPIRY W then (Inr d, tick (tick s))
            else callRemote W endpoint method body (cacheKey endpoint body) (tick (tick s)))
       \<and> ((\<exists>r s'. callApi W endpoint method body s = (Inr r, s') \<and> httpLog s' = httpLog s)
            = (clock W (Suc (step s)) - t < CACHE_EXPIRY W))
       \<and> (storage (snd (callApi W endpoint method body s)) (cacheKey endpoint body) = Some txt
          \<or> (\<exists>d' t'. storage (snd (callApi W endpoint method body s)) (cacheKey endpoint body)
                       = Some (JSON_stringify (cacheEntry d' t'))))
       \<and> (cacheExpiryHours W = None \<longrightarrow> CACHE_EXPIRY W = 24 * 60 * 60 * 1000)"
proof -
  let ?key = "cacheKey endpoint body"
  let ?fresh = "clock W (Suc (step s)) - t < CACHE_EXPIRY W"
  note eq = callApi_with_entry [OF assms, of "method"]
  have iff: "(\<exists>r s'. callApi W endpoint method body s = (Inr r, s') \<and> httpLog s' = httpLog s) = ?fresh"
  proof (cases ?fresh)
    case True
    then show ?thesis using eq by (simp add: tick_def)
  next
    case False
    have "\<And>r s'. callRemote W endpoint method body ?key (tick (tick s)) = (Inr r, s')
            \<Longrightarrow> httpLog s' \<noteq> httpLog s"
      using callRemote_log_grows [of W endpoint "method" body ?key "tick (tick s)"]
      by (fastforce simp: tick_def)
    then show ?thesis using eq False by auto
  qed
  have st: "storage (snd (callApi W endpoint method body s)) ?key = Some txt
          \<or> (\<exists>d' t'. storage (snd (callApi W endpoint method body s)) ?key
                       = Some (JSON_stringify (cacheEntry d' t')))"
  proof (cases ?fresh)
    case True
    then show ?thesis using eq assms(4) by (simp add: tick_def)
  next
    case False
    then show ?thesis
      using eq assms(4)
        callRemote_storage [OF cacheKey_not_working [of endpoint body], of W endpoint "method" body
          "tick (tick s)"]
      by (auto simp: tick_def)
  qed
  have ttl: "cacheExpiryHours W = None \<longrightarrow> CACHE_EXPIRY W = 24 * 60 * 60 * 1000"
    by (simp add: CACHE_EXPIRY_def)
  show ?thesis using eq iff st ttl by blast
qed

lemma cachedState_entry:
  "storage cachedState (cacheKey ''achievement-badge'' badgeBody) = Some cachedText"
  by (simp add: cachedState_def)

lemma cachedText_nonempty: "cachedText \<noteq> []"
  by (simp add: cachedText_def JSON_stringify_entry_nonempty)

lemma cachedBadge_isJSON: "isJSON cachedBadge"
  by (simp add: cachedBadge_def)

lemma cachedText_parses: "JSON_parse cachedText = Some (cacheEntry cachedBadge 1700000000000)"
  unfolding cachedText_def
  by (rule JSON_parse_stringify [OF cacheEntry_isJSON [OF cachedBadge_isJSON]])

theorem cache_hit_iff_fresh_witness:
  "USE_BACKEND_GENERATION freshWorld \<and> USE_BACKEND_GENERATION expiredWorld
   \<and> storage cachedState (cacheKey ''achievement-badge'' badgeBody) = Some cachedText
   \<and> JSON_parse cachedText = Some (cacheEntry cachedBadge 1700000000000)
   \<and> clock freshWorld (Suc (step cachedState)) - 1700000000000 = 86340000
   \<and> clock expiredWorld (Suc (step cachedState)) - 1700000000000 = 86460000
   \<and> CACHE_EXPIRY freshWorld = 86400000
   \<and> callApi freshWorld ''achievement-badge'' ''POST'' badgeBody cachedState
        = (Inr cachedBadge, tick (tick cachedState))
   \<and> callApi expiredWorld ''achievement-badge'' ''POST'' badgeBody cachedState
        = callRemote expiredWorld ''achievement-badge'' ''POST'' badgeBody
            (cacheKey ''achievement-badge'' badgeBody) (tick (tick cachedState))
   \<and> httpLog (snd (callApi expiredWorld ''achievement-badge'' ''POST'' badgeBody cachedState))
        = [apiRequest ''POST'' badgeBody ''http://localhost:3000/api/achievement-badge'']"
proof -
  have u1: "USE_BACKEND_GENERATION freshWorld"
    by (simp add: USE_BACKEND_GENERATION_def freshWorld_def offlineWorld_def)
  have u2: "USE_BACKEND_GENERATION expiredWorld"
    by (simp add: USE_BACKEND_GENERATION_def expiredWorld_def offlineWorld_def)
  have ep: "''achievement-badge'' \<noteq> ''motivational-message''" by simp
  have f1: "\<not> storageFails freshWorld (step cachedState)"
    by (simp add: freshWorld_def offlineWorld_def)
  have f2: "\<not> storageFails expiredWorld (step cachedState)"
    by (simp add: expiredWorld_def offlineWorld_def)
  note p1 = cachedText_parses
  note fresh = cache_hit_iff_fresh [OF u1 ep f1 cachedState_entry cachedText_nonempty p1, of "''POST''"]
  note expired = cache_hit_iff_fresh [OF u2 ep f2 cachedState_entry cachedText_nonempty p1, of "''POST''"]
  have c1: "clock freshWorld (Suc (step cachedState)) - 1700000000000 = 86340000"
    by (simp add: freshWorld_def)
  have c2: "clock expiredWorld (Suc (step cachedState)) - 1700000000000 = 86460000"
    by (simp add: expiredWorld_def)
  have t1: "CACHE_EXPIRY freshWorld = 86400000"
    by (simp add: CACHE_EXPIRY_def freshWorld_def offlineWorld_def)
  have t2: "CACHE_EXPIRY expiredWorld = 86400000"
    by (simp add: CACHE_EXPIRY_def expiredWorld_def offlineWorld_def)
  have r1: "callApi freshWorld ''achievement-badge'' ''POST'' badgeBody cachedState
        = (Inr cachedBadge, tick (tick cachedState))"
    using conjunct1 [OF fresh] by (simp add: c1 t1)
  have r2: "callApi expiredWorld ''achievement-badge'' ''POST'' badgeBody cachedState
        = callRemote expiredWorld ''achievement-badge'' ''POST'' badgeBody
            (cacheKey ''achievement-badge'' badgeBody) (tick (tick cachedState))"
    using conjunct1 [OF expired] by (simp add: c2 t2)
  have e: "ensureBackendUrl expiredWorld (tick (tick cachedState)) = (Inr (), tick (tick cachedState))"
    by (simp add: ensureBackendUrl_def cachedState_def knownUrlState_def emptyState_def tick_def
        truthyStr_def)
  have d: "discoveredBackendUrl cachedState = Some ''http://localhost:3000/api''"
    by (simp add: cachedState_def knownUrlState_def emptyState_def)
  have b: "buildApiUrl ''http://localhost:3000/api'' ''achievement-badge''
             = ''http://localhost:3000/api/achievement-badge''"
    by (simp add: buildApiUrl_def endsWith_def)
  have n: "\<And>k rq. net expiredWorld k rq = Rejected (TypeError ''Network request failed'')"
    by (simp add: expiredWorld_def offlineWorld_def)
  have l: "httpLog cachedState = []"
    by (simp add: cachedState_def knownUrlState_def emptyState_def)
  have r3: "httpLog (snd (callApi expiredWorld ''achievement-badge'' ''POST'' badgeBody cachedState))
        = [apiRequest ''POST'' badgeBody ''http://localhost:3000/api/achievement-badge'']"
    unfolding r2 callRemote_after_ensure [OF e]
    by (simp add: d b n l Let_def tick_def)
  show ?thesis
    using u1 u2 cachedState_entry p1 c1 c2 t1 r1 r2 r3 by blast
qed

text \<open>
  Claim C9 as stated fails: without remote connectivity, but with an unexpired
  cache entry for the request (written by an earlier call that reached the backend;
  here the entry is 23 h 59 min old), the achievement-badge operation for "First
  Quest" and milestone 1 sends no request and returns the cached badge, marked
  \<^verbatim>\<open>isAIGenerated: true\<close>, not the table entry. And with an empty cache what
  the operation returns is not the table entry itself but an object with a fourth
  member, the flag.
\<close>

theorem firstQuest_cached_badge_counterexample:
  "noConnectivity freshWorld
   \<and> storage cachedState (cacheKey ''achievement-badge''
         (JObj [(''achievementType'', JStr ''First Quest''), (''milestone'', JNum 1)]))
       = Some (JSON_stringify (cacheEntry
           (JObj [(''badgeName'', JStr ''Trailblazer''), (''iconType'', JStr ''boot'')]) 1700000000000))
   \<and> fst (generateAchievementBadge freshWorld (JStr ''First Quest'') (JNum 1) cachedState)
       = Inr (JObj [(''badgeName'', JStr ''Trailblazer''), (''iconType'', JStr ''boot''),
                    (''isAIGenerated'', JBool True)])
   \<and> httpLog (snd (generateAchievementBadge freshWorld (JStr ''First Quest'') (JNum 1) cachedState)) = []
   \<and> fst (generateAchievementBadge offlineWorld (JStr ''First Quest'') (JNum 1) emptyState)
       \<noteq> Inr (JObj [(''badgeName'', JStr ''Brave First Step''),
                 (''badgeDescription'', JStr ''You completed your first quest and began your adventure!''),
                 (''iconType'', JStr ''boot'')])"
proof -
  have a: "noConnectivity freshWorld"
    by (simp add: noConnectivity_def freshWorld_def offlineWorld_def)
  have u: "USE_BACKEND_GENERATION freshWorld"
    by (simp add: USE_BACKEND_GENERATION_def freshWorld_def offlineWorld_def)
  have ep: "''achievement-badge'' \<noteq> ''motivational-message''" by simp
  have f: "\<not> storageFails freshWorld (step cachedState)"
    by (simp add: freshWorld_def offlineWorld_def)
  have c: "clock freshWorld (Suc (step cachedState)) - 1700000000000 < CACHE_EXPIRY freshWorld"
    by (simp add: CACHE_EXPIRY_def freshWorld_def offlineWorld_def)
  have call: "callApi freshWorld ''achievement-badge'' ''POST'' badgeBody cachedState
        = (Inr cachedBadge, tick (tick cachedState))"
    using callApi_with_entry [OF u ep f cachedState_entry cachedText_nonempty cachedText_parses, of "''POST''"] c
    by simp
  have st: "storage cachedState (cacheKey ''achievement-badge''
         (JObj [(''achievementType'', JStr ''First Quest''), (''milestone'', JNum 1)]))
       = Some (JSON_stringify (cacheEntry
           (JObj [(''badgeName'', JStr ''Trailblazer''), (''iconType'', JStr ''boot'')]) 1700000000000))"
    using cachedState_entry by (simp add: badgeBody_def cachedText_def cachedBadge_def)
  have g: "generateAchievementBadge freshWorld (JStr ''First Quest'') (JNum 1) cachedState
        = (Inr (spreadWithFlag (Own cachedBadge) True), tick (tick cachedState))"
    using call u
    by (simp add: generateAchievementBadge_def generateAchievementBadge_try_def badgeBody_def)
  have sp: "spreadWithFlag (Own cachedBadge) True
        = JObj [(''badgeName'', JStr ''Trailblazer''), (''iconType'', JStr ''boot''),
                (''isAIGenerated'', JBool True)]"
    by (simp add: spreadWithFlag_def cachedBadge_def)
  have l: "httpLog (tick (tick cachedState)) = []"
    by (simp add: tick_def cachedState_def knownUrlState_def emptyState_def)
  have o: "noConnectivity offlineWorld"
    by (simp add: noConnectivity_def offlineWorld_def)
  have m: "\<forall>d. fst (cacheRead_try offlineWorld (cacheKey ''achievement-badge''
            (JObj [(''achievementType'', JStr ''First Quest''), (''milestone'', JNum 1)])) emptyState)
          \<noteq> Inr (Some d)"
    by (simp add: cacheRead_try_def getItem_def emptyState_def offlineWorld_def truthyStr_def)
  have e: "fst (generateAchievementBadge offlineWorld (JStr ''First Quest'') (JNum 1) emptyState)
       \<noteq> Inr (JObj [(''badgeName'', JStr ''Brave First Step''),
                 (''badgeDescription'', JStr ''You completed your first quest and began your adventure!''),
                 (''iconType'', JStr ''boot'')])"
    using generateAchievementBadge_offline_firstQuest [OF o m] by simp
  show ?thesis
    using a st e by (simp add: g sp l)
qed




end
